theory Spec2Isabelle
  imports Complex_Main
begin

section \<open>Modelling conventions\<close>

text \<open>
  The development embeds the scheduling core of the bandwidth controller:
  package \<open>bandwidth\<close> (\<open>internal/bandwidth/calculator.go\<close>) and the
  \<open>Scheduler\<close> of package \<open>controller\<close>.

  \<^item> Go's \<open>int\<close> and \<open>int64\<close> are modelled by \<open>int\<close>. The quantities are
    worker counts and throughput figures in Mbps; no property below depends on
    wrap-around at 64 bits.
  \<^item> Go's \<open>float64\<close> is modelled by \<open>real\<close>, without infinities or NaN. Where the
    source divides by a value that can be zero, the IEEE outcome is written out in
    the model. In \<open>AllocateBandwidth\<close>, whose sum is sensitive to it, the rounding of
    every \<open>float64\<close> operation is explicit: a function \<open>fl\<close> applied to the exact
    result. \<open>roundsToNearest fl\<close> is the standard model of round-to-nearest in
    double precision (relative error at most \<open>2^-53\<close>, no overflow or underflow);
    the identity is exact arithmetic. Elsewhere arithmetic is exact.
  \<^item> The conversion \<open>int64(f)\<close> discards the fraction (rounds toward zero).
  \<^item> \<open>math/rand\<close> is modelled by explicit draws handed to each function:
    \<open>rand.Float64()\<close> returns a supplied real (the library promises \<open>[0,1)\<close>, which
    theorems assume where they need it), \<open>rand.Intn(n)\<close> returns \<open>u mod n\<close> for a
    supplied natural \<open>u\<close>, so that every value in \<open>[0,n)\<close> is covered.
  \<^item> \<open>time.Time\<close> and \<open>time.Duration\<close> are integers counting nanoseconds.
  \<^item> A run-time panic of the source is a value \<open>Inl p\<close> of the result.
\<close>

datatype go_panic =
  MakeSliceLenOutOfRange | IntnInvalidArgument | IndexOutOfRange | NilPointerDereference

definition toInt :: "real \<Rightarrow> int" where
  "toInt x = (if 0 \<le> x then \<lfloor>x\<rfloor> else \<lceil>x\<rceil>)"

definition roundsToNearest :: "(real \<Rightarrow> real) \<Rightarrow> bool" where
  "roundsToNearest fl = (\<forall>x. \<bar>fl x - x\<bar> \<le> \<bar>x\<bar> / 2 ^ 53)"

section \<open>Package bandwidth\<close>

subsection \<open>Clamping\<close>

definition Clamp :: "int \<Rightarrow> int \<Rightarrow> int \<Rightarrow> int" where
  "Clamp val mn mx = (if val < mn then mn else if val > mx then mx else val)"

definition Clamp64 :: "int \<Rightarrow> int \<Rightarrow> int \<Rightarrow> int" where
  "Clamp64 val mn mx = (if val < mn then mn else if val > mx then mx else val)"

definition ClampFloat :: "real \<Rightarrow> real \<Rightarrow> real \<Rightarrow> real" where
  "ClampFloat val mn mx = (if val < mn then mn else if val > mx then mx else val)"

subsection \<open>AllocateBandwidth\<close>

text \<open>
  The first loop draws one weight per agent (draws \<open>0 .. n-1\<close>); the second loop
  uses one further draw per agent for the variation (draws \<open>n .. 2n-1\<close>).
  \<open>allocateOne\<close> is the body of the second loop for one agent,
  \<open>perturbedAllocations\<close> the slice after the second loop and
  \<open>normalizeAllocations\<close> the final conditional rescaling. Every \<open>float64\<close>
  operation and every conversion from \<open>int64\<close> to \<open>float64\<close> is followed by the
  rounding \<open>fl\<close>; the sum \<open>actualTotal\<close> is an \<open>int64\<close> sum.
\<close>

definition allocateOne ::
  "(real \<Rightarrow> real) \<Rightarrow> real \<Rightarrow> real \<Rightarrow> int \<Rightarrow> int \<Rightarrow> real \<Rightarrow> real \<Rightarrow> real \<Rightarrow> int" where
  "allocateOne fl targetTotal totalWeight minPerAgent maxPerAgent randomnessFactor weight r =
     (let proportion = fl (weight / totalWeight);
          allocated = toInt (fl (proportion * targetTotal));
          allocated = Clamp64 allocated minPerAgent maxPerAgent;
          variation = fl (fl (fl (real_of_int allocated) * randomnessFactor)
                          * fl (fl (r * 2) - 1));
          allocated = toInt (fl (fl (real_of_int allocated) + variation))
      in Clamp64 allocated minPerAgent maxPerAgent)"

definition normalizeAllocations ::
  "(real \<Rightarrow> real) \<Rightarrow> real \<Rightarrow> int \<Rightarrow> int \<Rightarrow> int list \<Rightarrow> int list" where
  "normalizeAllocations fl targetTotal minPerAgent maxPerAgent allocations =
     (let actualTotal = sum_list allocations
      in if actualTotal \<noteq> toInt targetTotal \<and> actualTotal > 0
         then (let ratio = fl (targetTotal / fl (real_of_int actualTotal))
               in map (\<lambda>a. Clamp64 (toInt (fl (fl (real_of_int a) * ratio)))
                                 minPerAgent maxPerAgent)
                      allocations)
         else allocations)"

definition perturbedAllocations ::
  "(real \<Rightarrow> real) \<Rightarrow> (nat \<Rightarrow> real) \<Rightarrow> real \<Rightarrow> nat \<Rightarrow> int \<Rightarrow> int \<Rightarrow> real \<Rightarrow> int list" where
  "perturbedAllocations fl rnd targetTotal n minPerAgent maxPerAgent randomnessFactor =
     (let weights = map (\<lambda>i. fl (0.5 + rnd i)) [0..<n];
          totalWeight = foldl (\<lambda>total weight. fl (total + weight)) 0 weights
      in map (\<lambda>i. allocateOne fl targetTotal totalWeight minPerAgent maxPerAgent
                    randomnessFactor (weights ! i) (rnd (n + i))) [0..<n])"

definition AllocateBandwidth ::
  "(real \<Rightarrow> real) \<Rightarrow> (nat \<Rightarrow> real) \<Rightarrow> real \<Rightarrow> int \<Rightarrow> int \<Rightarrow> int \<Rightarrow> real
   \<Rightarrow> go_panic + int list" where
  "AllocateBandwidth fl rnd targetTotal numAgents minPerAgent maxPerAgent randomnessFactor =
     (if numAgents = 0 then Inr []
      else if numAgents < 0 then Inl MakeSliceLenOutOfRange
      else Inr (normalizeAllocations fl targetTotal minPerAgent maxPerAgent
                  (perturbedAllocations fl rnd targetTotal (nat numAgents) minPerAgent
                     maxPerAgent randomnessFactor)))"

subsection \<open>CalculateStagger\<close>

definition staggerDelay :: "real \<Rightarrow> real \<Rightarrow> nat \<Rightarrow> real" where
  "staggerDelay baseDelay r i =
     (let delay = real i * baseDelay;
          jitter = baseDelay * 0.25 * (r * 2 - 1);
          delay = delay + jitter
      in if delay < 0 then 0 else delay)"

definition CalculateStagger :: "(nat \<Rightarrow> real) \<Rightarrow> int \<Rightarrow> real \<Rightarrow> go_panic + real list" where
  "CalculateStagger rnd count totalDuration =
     (if count = 0 then Inr []
      else if count < 0 then Inl MakeSliceLenOutOfRange
      else
        (let baseDelay = totalDuration / real_of_int count
         in Inr (map (\<lambda>i. staggerDelay baseDelay (rnd i) i) [0..<nat count])))"

subsection \<open>CalculateConcurrency\<close>

text \<open>
  \<open>draw\<close> is the raw draw behind \<open>rand.Intn(3)\<close>. \<open>wave_reference\<close> is the wave
  function as the specification words it: sinusoids of periods 300 s, 180 s and
  420 s, weights 1.0, 0.5 and 0.3, normalised by 1.8, mapped from \<open>[-1,1]\<close> to
  \<open>[0,1]\<close>, interpolated into \<open>[min,max]\<close>, perturbed by a draw from \<open>{-1,0,1}\<close>
  and clamped.
\<close>

definition CalculateConcurrency :: "nat \<Rightarrow> real \<Rightarrow> int \<Rightarrow> int \<Rightarrow> real \<Rightarrow> int" where
  "CalculateConcurrency draw elapsedSeconds mn mx randomness =
     (let wave1 = sin (elapsedSeconds / 300);
          wave2 = sin (elapsedSeconds / 180);
          wave3 = sin (elapsedSeconds / 420);
          combined = (wave1 + wave2 * 0.5 + wave3 * 0.3) / 1.8;
          normalized = (combined + 1) / 2;
          concurrent = mn + toInt (real_of_int (mx - mn) * normalized);
          randomAdjust = int (draw mod 3) - 1;
          concurrent = concurrent + randomAdjust
      in Clamp concurrent mn mx)"

definition sinusoid :: "real \<Rightarrow> real \<Rightarrow> real" where
  "sinusoid period t = sin (2 * pi * t / period)"

definition wave_reference :: "nat \<Rightarrow> real \<Rightarrow> int \<Rightarrow> int \<Rightarrow> int" where
  "wave_reference draw elapsedSeconds mn mx =
     (let combined = (1.0 * sinusoid 300 elapsedSeconds + 0.5 * sinusoid 180 elapsedSeconds
                      + 0.3 * sinusoid 420 elapsedSeconds) / 1.8;
          signal = (combined + 1) / 2;
          interpolated = mn + toInt (real_of_int (mx - mn) * signal);
          perturbation = int (draw mod 3) - 1
      in Clamp (interpolated + perturbation) mn mx)"

subsection \<open>WeightedRandomSelection\<close>

text \<open>
  \<open>removeAt idx xs\<close> is \<open>append(xs[:idx], xs[idx+1:]...)\<close>. \<open>walkCumulative\<close> is the
  inner loop that finds the first index whose cumulative weight reaches \<open>r\<close>
  (\<open>None\<close> stands for \<open>selectedIdx == -1\<close>). \<open>selectLoop\<close> is the outer loop with
  \<open>k\<close> iterations left; iteration \<open>i\<close> uses draw \<open>i\<close> of either kind.
\<close>

definition removeAt :: "nat \<Rightarrow> 'a list \<Rightarrow> 'a list" where
  "removeAt idx xs = take idx xs @ drop (Suc idx) xs"

fun walkCumulative :: "real \<Rightarrow> real \<Rightarrow> nat \<Rightarrow> real list \<Rightarrow> nat option" where
  "walkCumulative r cumulative idx [] = None"
| "walkCumulative r cumulative idx (w # ws) =
     (let cumulative = cumulative + w
      in if r \<le> cumulative then Some idx else walkCumulative r cumulative (Suc idx) ws)"

fun selectLoop ::
  "(nat \<Rightarrow> nat) \<Rightarrow> (nat \<Rightarrow> real) \<Rightarrow> nat \<Rightarrow> nat \<Rightarrow> nat list \<Rightarrow> real list \<Rightarrow> nat list
   \<Rightarrow> go_panic + nat list" where
  "selectLoop rndInt rndFloat 0 i available availableWeights selected = Inr selected"
| "selectLoop rndInt rndFloat (Suc k) i available availableWeights selected =
     (let totalWeight = sum_list availableWeights
      in if totalWeight = 0
         then (if length available = 0 then Inl IntnInvalidArgument
               else (let idx = rndInt i mod length available
                     in selectLoop rndInt rndFloat k (Suc i) (removeAt idx available)
                          (removeAt idx availableWeights) (selected @ [available ! idx])))
         else (let r = rndFloat i * totalWeight;
                   selectedIdx = (case walkCumulative r 0 0 availableWeights of
                                    Some idx \<Rightarrow> int idx
                                  | None \<Rightarrow> int (length available) - 1)
               in if selectedIdx < 0 \<or> int (length available) \<le> selectedIdx
                  then Inl IndexOutOfRange
                  else selectLoop rndInt rndFloat k (Suc i)
                         (removeAt (nat selectedIdx) available)
                         (removeAt (nat selectedIdx) availableWeights)
                         (selected @ [available ! nat selectedIdx])))"

definition WeightedRandomSelection ::
  "(nat \<Rightarrow> nat) \<Rightarrow> (nat \<Rightarrow> real) \<Rightarrow> int \<Rightarrow> real list \<Rightarrow> go_panic + nat list" where
  "WeightedRandomSelection rndInt rndFloat count weights =
     (if count \<ge> int (length weights) then Inr [0..<length weights]
      else if count < 0 then Inl MakeSliceLenOutOfRange
      else selectLoop rndInt rndFloat (nat count) 0 [0..<length weights] weights [])"

section \<open>Package controller: the Scheduler\<close>

text \<open>
  The structs of \<open>scheduler.go\<close>, \<open>config.go\<close> and the command payloads of package
  \<open>protocol\<close> become records. Where two structs share a field name the later record
  carries a suffix (\<open>AgentID_st\<close>, \<open>Region_st\<close> of \<open>AgentStatus\<close>; \<open>URL_cmd\<close>,
  \<open>Bandwidth_cmd\<close> of \<open>DownloadCommand\<close>). A Go map is a partial function; maps built
  by the program are finite. Pointers to \<open>AgentAllocation\<close> and \<open>AgentStatus\<close> are
  modelled by the values they point to. Of \<open>AggregatedMetrics\<close> only the two fields
  the scheduler reads are kept; of \<open>Scheduler\<close> the collaborators (\<open>server\<close>,
  \<open>metrics\<close>, \<open>logger\<close>) and the mutex are left out: what the collaborators return
  is an input of the function that asks for it.
\<close>

record AgentConfig =
  ID :: string
  Host :: string
  Name :: string
  MaxBandwidth :: int
  Region :: string

record BandwidthConfig =
  TargetGbps :: real
  Tolerance :: real

record SchedulerConfig =
  MinConcurrent :: int
  MaxConcurrent :: int
  RotationIntervalMin :: int
  RotationIntervalMax :: int
  ServerBandwidthMin :: int
  ServerBandwidthMax :: int
  RampUpDuration :: int
  RampDownDuration :: int
  TimingRandomness :: real
  BandwidthRandomness :: real

record Config =
  Bandwidth :: BandwidthConfig
  Scheduler :: SchedulerConfig
  Agents :: "AgentConfig list"
  URLs :: "string list"

record AgentAllocation =
  AgentID :: string
  AllocatedBW :: int
  StartTime :: int
  PlannedDuration :: int
  CurrentCommand :: string
  URL :: string

record AgentStatus =
  AgentID_st :: string
  LastUsed :: int
  TotalRuntime :: int
  UseCount :: int
  Region_st :: string

record SchedulerState =
  Phase :: string
  ActiveAgents :: "string \<rightharpoonup> AgentAllocation"
  NextRotation :: int
  TargetTotalBW :: real
  CurrentTotalBW :: real
  LastRotation :: int
  RotationCount :: int

record scheduler =
  config :: Config
  state :: SchedulerState
  startTime :: int
  agentStatus :: "string \<rightharpoonup> AgentStatus"

record AggregatedMetrics =
  TotalBandwidth :: real
  AgentBreakdown :: "string \<rightharpoonup> real"

record DownloadCommand =
  CommandID :: string
  URL_cmd :: string
  Duration :: int
  Bandwidth_cmd :: int
  StartDelay :: string

definition second :: int where
  "second = 1000000000"

subsection \<open>The adaptive loop\<close>

text \<open>
  \<open>boostNeeded\<close> is the body of the loop of \<open>adjustBandwidthIfNeeded\<close> for one active
  agent whose throughput is in the breakdown; \<open>Some d\<close> stands for
  \<open>go s.boostAgentBandwidth(agentID, d)\<close>. With \<open>targetBW = 0\<close> the branch is reached
  only with a positive deficit, and the IEEE quotient \<open>deficit / 0\<close> is then
  \<open>+Inf\<close>, which exceeds \<open>20\<close>.
  \<open>adjustBandwidthIfNeeded\<close> maps every agent id to the boost spawned for it, if any.
\<close>

definition boostNeeded :: "Config \<Rightarrow> AgentAllocation \<Rightarrow> real \<Rightarrow> int option" where
  "boostNeeded cfg alloc agentBW =
     (let targetBW = real_of_int (AllocatedBW alloc);
          tolerance = Tolerance (Bandwidth cfg);
          minAcceptable = targetBW * (1 - tolerance)
      in if agentBW < minAcceptable
         then (let deficit = targetBW - agentBW;
                   significant = (if targetBW = 0 then 0 < deficit
                                  else (deficit / targetBW) * 100 > 20)
               in if significant then Some (toInt deficit) else None)
         else None)"

definition adjustBandwidthIfNeeded :: "scheduler \<Rightarrow> AggregatedMetrics \<Rightarrow> (string \<rightharpoonup> int)" where
  "adjustBandwidthIfNeeded s agg =
     (if Phase (state s) \<noteq> ''stable'' then Map.empty
      else (\<lambda>agentID.
              case ActiveAgents (state s) agentID of
                None \<Rightarrow> None
              | Some alloc \<Rightarrow>
                  (case AgentBreakdown agg agentID of
                     None \<Rightarrow> None
                   | Some agentBW \<Rightarrow> boostNeeded (config s) alloc agentBW)))"

definition selectRandomURL :: "Config \<Rightarrow> nat \<Rightarrow> string" where
  "selectRandomURL cfg draw =
     (if length (URLs cfg) = 0
      then ''https://dl.google.com/linux/direct/google-chrome-stable_current_amd64.deb''
      else URLs cfg ! (draw mod length (URLs cfg)))"

text \<open>
  \<open>boostAgentBandwidth\<close> returns the command delivered to the agent, or \<open>None\<close> when
  it returns without sending. \<open>now\<close> is the clock when the goroutine reads
  \<open>NextRotation\<close>, \<open>commandID\<close> the fresh UUID, \<open>sendOk\<close> tells whether
  \<open>protocol.NewMessage\<close> and \<open>SendToAgent\<close> both succeed. The duration is kept as a
  number of nanoseconds instead of its string form.
\<close>

definition boostAgentBandwidth ::
  "scheduler \<Rightarrow> int \<Rightarrow> nat \<Rightarrow> string \<Rightarrow> bool \<Rightarrow> string \<Rightarrow> int \<Rightarrow> DownloadCommand option" where
  "boostAgentBandwidth s now urlDraw commandID sendOk agentID additionalBW =
     (let additionalBW = (if additionalBW < 100 then 100 else additionalBW);
          additionalBW = (if additionalBW > 500 then 500 else additionalBW);
          url = selectRandomURL (config s) urlDraw;
          duration = NextRotation (state s) - now
      in if duration < 30 * second then None
         else if \<not> sendOk then None
         else Some \<lparr>CommandID = commandID, URL_cmd = url, Duration = duration,
                     Bandwidth_cmd = additionalBW, StartDelay = ''''\<rparr>)"

datatype tick_result = SpawnRotation | Boosts "string \<rightharpoonup> int"

definition evaluateAndAdjust ::
  "scheduler \<Rightarrow> int \<Rightarrow> AggregatedMetrics \<Rightarrow> scheduler \<times> tick_result" where
  "evaluateAndAdjust s now agg =
     (if now > NextRotation (state s) then (s, SpawnRotation)
      else (let s' = s\<lparr>state := (state s)\<lparr>CurrentTotalBW := TotalBandwidth agg\<rparr>\<rparr>
            in (s', Boosts (adjustBandwidthIfNeeded s' agg))))"

subsection \<open>Connection callbacks\<close>

definition OnAgentDisconnect :: "scheduler \<Rightarrow> string \<Rightarrow> scheduler" where
  "OnAgentDisconnect s agentID =
     s\<lparr>state := (state s)\<lparr>ActiveAgents := (ActiveAgents (state s))(agentID := None)\<rparr>\<rparr>"

subsection \<open>One rotation\<close>

text \<open>
  What a rotation reads from outside the scheduler is collected in a record: the
  clock at the points where the source reads it, the snapshot of connected agent
  ids, the random draws, and the rounding of the allocator's arithmetic.
\<close>

record RotationEnv =
  tConcurrency :: int
  adjustDraw :: nat
  connectedAgents :: "string list"
  tSelect :: int
  selectInts :: "nat \<Rightarrow> nat"
  selectFloats :: "nat \<Rightarrow> real"
  rounding :: "real \<Rightarrow> real"
  allocDraws :: "nat \<Rightarrow> real"
  tAllocate :: int
  tCommit :: int
  intervalDraw :: real
  jitterDraw :: real
  tSchedule :: int

definition RandomDuration :: "real \<Rightarrow> real \<Rightarrow> real \<Rightarrow> real \<Rightarrow> real \<Rightarrow> real" where
  "RandomDuration r1 r2 minSeconds maxSeconds jitterFactor =
     (let duration = minSeconds + r1 * (maxSeconds - minSeconds);
          jitter = duration * jitterFactor * (r2 * 2 - 1);
          duration = duration + jitter
      in ClampFloat duration minSeconds maxSeconds)"

definition calculateConcurrency :: "scheduler \<Rightarrow> RotationEnv \<Rightarrow> int" where
  "calculateConcurrency s env =
     (let elapsed = real_of_int (tConcurrency env - startTime s) / real_of_int second
      in CalculateConcurrency (adjustDraw env) elapsed
           (MinConcurrent (Scheduler (config s))) (MaxConcurrent (Scheduler (config s)))
           (TimingRandomness (Scheduler (config s))))"

definition isRegionOverused :: "scheduler \<Rightarrow> string \<Rightarrow> bool" where
  "isRegionOverused s region =
     (if region = '''' then False
      else (let totalActive = card (dom (ActiveAgents (state s)));
                regionCount = card {agentID \<in> dom (ActiveAgents (state s)).
                                      case agentStatus s agentID of
                                        Some status \<Rightarrow> Region_st status = region
                                      | None \<Rightarrow> False}
            in if totalActive = 0 then False
               else real regionCount / real totalActive > 0.5))"

definition agentWeight :: "scheduler \<Rightarrow> RotationEnv \<Rightarrow> AgentConfig \<Rightarrow> AgentStatus \<Rightarrow> real" where
  "agentWeight s env agent status =
     (let weight = 1.0;
          weight = weight * (real_of_int (MaxBandwidth agent) / 1000.0);
          timeSinceUse = real_of_int (tSelect env - LastUsed status) / real_of_int (60 * second);
          weight = weight * ClampFloat (timeSinceUse / 10.0) 0.5 2.0
      in if \<not> isRegionOverused s (Region agent) then weight * 1.5 else weight)"

text \<open>
  \<open>selectAgents\<close>: a configured agent without a status entry would make
  \<open>status.LastUsed\<close> dereference a nil pointer.
\<close>

definition selectAgents :: "scheduler \<Rightarrow> RotationEnv \<Rightarrow> int \<Rightarrow> go_panic + AgentConfig list" where
  "selectAgents s env count =
     (let available = filter (\<lambda>agent. ID agent \<in> set (connectedAgents env)) (Agents (config s))
      in if length available = 0 then Inr []
         else (let count = (if count > int (length available) then int (length available)
                            else count)
               in if \<exists>agent \<in> set available. agentStatus s (ID agent) = None
                  then Inl NilPointerDereference
                  else (let weights = map (\<lambda>agent. agentWeight s env agent
                                                      (the (agentStatus s (ID agent)))) available
                        in case WeightedRandomSelection (selectInts env) (selectFloats env)
                                  count weights of
                             Inl p \<Rightarrow> Inl p
                           | Inr selectedIndices \<Rightarrow>
                               if \<exists>idx \<in> set selectedIndices. length available \<le> idx
                               then Inl IndexOutOfRange
                               else Inr (map (\<lambda>idx. available ! idx) selectedIndices))))"

text \<open>
  \<open>assignAllocations\<close> is the loop of \<open>allocateBandwidth\<close> over the selected agents,
  each paired with its share. The struct literal sets three fields; the others keep
  Go's zero values.
\<close>

fun assignAllocations ::
  "int \<Rightarrow> (AgentConfig \<times> int) list \<Rightarrow> (string \<rightharpoonup> AgentAllocation)
   \<Rightarrow> (string \<rightharpoonup> AgentAllocation)" where
  "assignAllocations now [] allocations = allocations"
| "assignAllocations now ((agent, share) # rest) allocations =
     (let allocated = (if share > MaxBandwidth agent then MaxBandwidth agent else share)
      in assignAllocations now rest
           (allocations(ID agent \<mapsto>
              \<lparr>AgentID = ID agent, AllocatedBW = allocated, StartTime = now,
               PlannedDuration = 0, CurrentCommand = '''', URL = ''''\<rparr>)))"

definition allocateBandwidth ::
  "scheduler \<Rightarrow> RotationEnv \<Rightarrow> AgentConfig list \<Rightarrow> go_panic + (string \<rightharpoonup> AgentAllocation)" where
  "allocateBandwidth s env agents =
     (if length agents = 0 then Inr Map.empty
      else (case AllocateBandwidth (rounding env) (allocDraws env) (TargetTotalBW (state s))
                   (int (length agents))
                   (ServerBandwidthMin (Scheduler (config s)))
                   (ServerBandwidthMax (Scheduler (config s)))
                   (BandwidthRandomness (Scheduler (config s))) of
              Inl p \<Rightarrow> Inl p
            | Inr bandwidthAllocations \<Rightarrow>
                if length bandwidthAllocations < length agents then Inl IndexOutOfRange
                else Inr (assignAllocations (tAllocate env) (zip agents bandwidthAllocations)
                            Map.empty)))"

text \<open>
  The two diffs range over a map, whose iteration order Go leaves open: the stop
  set is modelled by its membership test, the start set by the map of the
  allocations to start.
\<close>

definition findAgentsToStop :: "scheduler \<Rightarrow> (string \<rightharpoonup> AgentAllocation) \<Rightarrow> string \<Rightarrow> bool" where
  "findAgentsToStop s newAllocations agentID =
     (ActiveAgents (state s) agentID \<noteq> None \<and> newAllocations agentID = None)"

definition findAgentsToStart ::
  "scheduler \<Rightarrow> (string \<rightharpoonup> AgentAllocation) \<Rightarrow> (string \<rightharpoonup> AgentAllocation)" where
  "findAgentsToStart s newAllocations agentID =
     (if ActiveAgents (state s) agentID = None then newAllocations agentID else None)"

definition scheduleNextRotation :: "scheduler \<Rightarrow> RotationEnv \<Rightarrow> scheduler" where
  "scheduleNextRotation s env =
     (let minInterval = real_of_int (RotationIntervalMin (Scheduler (config s))) / real_of_int second;
          maxInterval = real_of_int (RotationIntervalMax (Scheduler (config s))) / real_of_int second;
          jitterFactor = TimingRandomness (Scheduler (config s));
          durationSeconds = RandomDuration (intervalDraw env) (jitterDraw env)
                              minInterval maxInterval jitterFactor;
          nextInterval = toInt (durationSeconds * real_of_int second)
      in s\<lparr>state := (state s)\<lparr>NextRotation := tSchedule env + nextInterval\<rparr>\<rparr>)"

text \<open>
  The sections of \<open>performRotation\<close>, in the order of the source: entering
  \<open>ramping_down\<close>, computing the new schedule, entering \<open>ramping_up\<close>, the commit,
  and the scheduling of the next rotation. Between the sections the source
  releases the mutex, and it sleeps through the ramp-down; the sections are put
  together in the machine of the next subsection.
\<close>

definition rotationBegin :: "scheduler \<Rightarrow> scheduler" where
  "rotationBegin s = s\<lparr>state := (state s)\<lparr>Phase := ''ramping_down''\<rparr>\<rparr>"

definition rotationPlan ::
  "scheduler \<Rightarrow> RotationEnv \<Rightarrow> go_panic + (string \<rightharpoonup> AgentAllocation)" where
  "rotationPlan s env =
     (let newConcurrency = calculateConcurrency s env
      in case selectAgents s env newConcurrency of
           Inl p \<Rightarrow> Inl p
         | Inr selectedAgents \<Rightarrow> allocateBandwidth s env selectedAgents)"

definition rotationRampUp :: "scheduler \<Rightarrow> scheduler" where
  "rotationRampUp s = s\<lparr>state := (state s)\<lparr>Phase := ''ramping_up''\<rparr>\<rparr>"

definition rotationCommit ::
  "scheduler \<Rightarrow> RotationEnv \<Rightarrow> (string \<rightharpoonup> AgentAllocation) \<Rightarrow> scheduler" where
  "rotationCommit s env allocations =
     s\<lparr>state := (state s)\<lparr>Phase := ''stable'', ActiveAgents := allocations,
                           LastRotation := tCommit env,
                           RotationCount := RotationCount (state s) + 1\<rparr>\<rparr>"

subsection \<open>Ticks, disconnects and rotation tasks\<close>

text \<open>
  \<open>Run\<close> calls \<open>evaluateAndAdjust\<close> at every tick, \<open>evaluateAndAdjust\<close> starts
  \<open>performRotation\<close> as a goroutine, and the transport calls \<open>OnAgentDisconnect\<close>
  at any time. The interleavings of ticks, disconnects and rotation goroutines are
  the event lists of a small machine: the scheduler, the clock and the rotation
  tasks in flight. A task is one call of \<open>performRotation\<close>: the section it
  executes next and its local variables \<open>allocations\<close> (\<open>planned\<close>), \<open>toStop\<close> and
  \<open>toStart\<close>. A section runs atomically; the sections that write the state do so
  under the mutex in the source. The stop set is computed in the planning section
  from the active map as it is then; the start set is computed when \<open>ramping_up\<close>
  is entered, from the active map as it is then. In between, a task that has
  planned a non-empty stop set sleeps for \<open>RampDownDuration\<close>: its next section is
  not enabled before \<open>wakeAt\<close>, and other events may run. Clock readings of a
  section are the machine's clock. Sending the stop, start and boost commands is
  left out: it does not write the scheduler state read here, and \<open>startAgent\<close>
  touches only allocations of the start set.
\<close>

datatype rotation_pc = AtBegin | AtPlan | AtRampUp | AtCommit | AtReschedule

record rotation_task =
  pc :: rotation_pc
  planned :: "string \<rightharpoonup> AgentAllocation"
  toStop :: "string \<Rightarrow> bool"
  toStart :: "string \<rightharpoonup> AgentAllocation"
  wakeAt :: int

record system =
  sched :: scheduler
  clock :: int
  tasks :: "rotation_task list"

datatype event =
  Tick AggregatedMetrics | Advance nat | RotationStep nat RotationEnv | Disconnect string

definition atClock :: "RotationEnv \<Rightarrow> int \<Rightarrow> RotationEnv" where
  "atClock env now =
     env\<lparr>tConcurrency := now, tSelect := now, tAllocate := now, tCommit := now,
          tSchedule := now\<rparr>"

definition newRotation :: "int \<Rightarrow> rotation_task" where
  "newRotation now =
     \<lparr>pc = AtBegin, planned = Map.empty, toStop = (\<lambda>agentID. False), toStart = Map.empty,
      wakeAt = now\<rparr>"

definition rotationStep ::
  "RotationEnv \<Rightarrow> int \<Rightarrow> scheduler \<Rightarrow> rotation_task
   \<Rightarrow> go_panic + (scheduler \<times> rotation_task option)" where
  "rotationStep env now s task =
     (case pc task of
        AtBegin \<Rightarrow> Inr (rotationBegin s, Some (task\<lparr>pc := AtPlan\<rparr>))
      | AtPlan \<Rightarrow>
          (case rotationPlan s (atClock env now) of
             Inl p \<Rightarrow> Inl p
           | Inr allocations \<Rightarrow>
               (let stop = findAgentsToStop s allocations;
                    stopping = (\<exists>agentID \<in> dom (ActiveAgents (state s)). stop agentID);
                    wake = (if stopping
                            then now + RampDownDuration (Scheduler (config s)) else now)
                in Inr (s, Some (task\<lparr>pc := AtRampUp, planned := allocations,
                                       toStop := stop, wakeAt := wake\<rparr>))))
      | AtRampUp \<Rightarrow>
          (if now < wakeAt task then Inr (s, Some task)
           else (let s' = rotationRampUp s
                 in Inr (s', Some (task\<lparr>pc := AtCommit,
                                         toStart := findAgentsToStart s' (planned task)\<rparr>))))
      | AtCommit \<Rightarrow>
          Inr (rotationCommit s (atClock env now) (planned task),
               Some (task\<lparr>pc := AtReschedule\<rparr>))
      | AtReschedule \<Rightarrow> Inr (scheduleNextRotation s (atClock env now), None))"

definition applyEvent :: "system \<Rightarrow> event \<Rightarrow> go_panic + system" where
  "applyEvent sys e =
     (case e of
        Tick agg \<Rightarrow>
          (case evaluateAndAdjust (sched sys) (clock sys) agg of
             (s', SpawnRotation) \<Rightarrow>
               Inr (sys\<lparr>sched := s', tasks := tasks sys @ [newRotation (clock sys)]\<rparr>)
           | (s', Boosts boosts) \<Rightarrow> Inr (sys\<lparr>sched := s'\<rparr>))
      | Advance d \<Rightarrow> Inr (sys\<lparr>clock := clock sys + int d\<rparr>)
      | RotationStep i env \<Rightarrow>
          (if length (tasks sys) \<le> i then Inr sys
           else (case rotationStep env (clock sys) (sched sys) (tasks sys ! i) of
                   Inl p \<Rightarrow> Inl p
                 | Inr (s', Some task') \<Rightarrow>
                     Inr (sys\<lparr>sched := s', tasks := (tasks sys)[i := task']\<rparr>)
                 | Inr (s', None) \<Rightarrow>
                     Inr (sys\<lparr>sched := s',
                               tasks := take i (tasks sys) @ drop (Suc i) (tasks sys)\<rparr>)))
      | Disconnect agentID \<Rightarrow> Inr (sys\<lparr>sched := OnAgentDisconnect (sched sys) agentID\<rparr>))"

fun run :: "system \<Rightarrow> event list \<Rightarrow> go_panic + system" where
  "run sys [] = Inr sys"
| "run sys (e # es) = (case applyEvent sys e of Inl p \<Rightarrow> Inl p | Inr sys' \<Rightarrow> run sys' es)"

section \<open>Example inputs\<close>

text \<open>
  A configuration with two agents, a target of 1.7 Gbps, one or two concurrent
  agents and otherwise the default scheduler settings of \<open>LoadConfig\<close>; a scheduler
  in phase \<open>stable\<close> after its first rotation, with both agents active; and the
  environment of a rotation during which only \<open>agent-1\<close> is connected, with exact
  rounding.
\<close>

definition example_config :: Config where
  "example_config =
     \<lparr>Bandwidth = \<lparr>TargetGbps = 17 / 10, Tolerance = 15 / 100\<rparr>,
      Scheduler = \<lparr>MinConcurrent = 1, MaxConcurrent = 2,
                   RotationIntervalMin = 30 * second, RotationIntervalMax = 180 * second,
                   ServerBandwidthMin = 400, ServerBandwidthMax = 1200,
                   RampUpDuration = 15 * second, RampDownDuration = 20 * second,
                   TimingRandomness = 3 / 10, BandwidthRandomness = 1 / 4\<rparr>,
      Agents = [\<lparr>ID = ''agent-1'', Host = ''10.0.0.1'', Name = ''one'', MaxBandwidth = 1000,
                 Region = ''''\<rparr>,
                \<lparr>ID = ''agent-2'', Host = ''10.0.0.2'', Name = ''two'', MaxBandwidth = 1000,
                 Region = ''''\<rparr>],
      URLs = [''https://example.com/file'']\<rparr>"

definition example_allocation_1 :: AgentAllocation where
  "example_allocation_1 =
     \<lparr>AgentID = ''agent-1'', AllocatedBW = 800, StartTime = 0,
      PlannedDuration = 160 * second, CurrentCommand = ''command-1'',
      URL = ''https://example.com/file''\<rparr>"

definition example_allocation_2 :: AgentAllocation where
  "example_allocation_2 =
     \<lparr>AgentID = ''agent-2'', AllocatedBW = 900, StartTime = 0,
      PlannedDuration = 160 * second, CurrentCommand = ''command-2'',
      URL = ''https://example.com/file''\<rparr>"

definition example_scheduler :: scheduler where
  "example_scheduler =
     \<lparr>config = example_config,
      state = \<lparr>Phase = ''stable'',
               ActiveAgents = [''agent-1'' \<mapsto> example_allocation_1,
                               ''agent-2'' \<mapsto> example_allocation_2],
               NextRotation = 100 * second, TargetTotalBW = 1700, CurrentTotalBW = 0,
               LastRotation = 0, RotationCount = 1\<rparr>,
      startTime = 0,
      agentStatus = [''agent-1'' \<mapsto> \<lparr>AgentID_st = ''agent-1'', LastUsed = 0, TotalRuntime = 0,
                                      UseCount = 1, Region_st = ''''\<rparr>,
                     ''agent-2'' \<mapsto> \<lparr>AgentID_st = ''agent-2'', LastUsed = 0, TotalRuntime = 0,
                                      UseCount = 1, Region_st = ''''\<rparr>]\<rparr>"

definition example_env :: RotationEnv where
  "example_env =
     \<lparr>tConcurrency = 101 * second, adjustDraw = 0, connectedAgents = [''agent-1''],
      tSelect = 101 * second, selectInts = (\<lambda>i. 0), selectFloats = (\<lambda>i. 1 / 2),
      rounding = (\<lambda>x. x), allocDraws = (\<lambda>i. 1 / 2), tAllocate = 101 * second,
      tCommit = 121 * second, intervalDraw = 1 / 2, jitterDraw = 1 / 2,
      tSchedule = 121 * second\<rparr>"

definition example_metrics :: AggregatedMetrics where
  "example_metrics = \<lparr>TotalBandwidth = 1380, AgentBreakdown = [''agent-1'' \<mapsto> 480,
                                                               ''agent-2'' \<mapsto> 900]\<rparr>"

text \<open>
  The allocation that the example rotation computes for \<open>agent-1\<close>, and the
  rotation task after its planning section and after it has entered \<open>ramping_up\<close>.
\<close>

definition example_new_allocation :: AgentAllocation where
  "example_new_allocation =
     \<lparr>AgentID = ''agent-1'', AllocatedBW = 1000, StartTime = 101 * second,
      PlannedDuration = 0, CurrentCommand = [], URL = []\<rparr>"

definition example_task_planned :: rotation_task where
  "example_task_planned =
     \<lparr>pc = AtRampUp, planned = [''agent-1'' \<mapsto> example_new_allocation],
      toStop = findAgentsToStop (rotationBegin example_scheduler)
                 [''agent-1'' \<mapsto> example_new_allocation],
      toStart = Map.empty, wakeAt = 121 * second\<rparr>"


text \<open>
  The machine with the example scheduler, whose deadline is at \<open>100 s\<close>, and no
  rotation in flight. In \<open>example_start\<close> the tick at \<open>101 s\<close> finds the deadline
  passed; the rotation it starts enters \<open>ramping_down\<close>, plans (\<open>agent-2\<close> is to
  stop) and sleeps for the ramp-down duration of \<open>20 s\<close>. \<open>example_trace\<close> goes on
  with the next tick, \<open>5 s\<close> later; \<open>example_rotation_trace\<close> lets the rotation
  wake up, enter \<open>ramping_up\<close> and commit; in \<open>example_disconnect_trace\<close>
  \<open>agent-1\<close> disconnects during the ramp-down wait.
\<close>

definition example_system :: system where
  "example_system = \<lparr>sched = example_scheduler, clock = 0, tasks = []\<rparr>"

definition example_start :: "event list" where
  "example_start =
     [Advance 101000000000, Tick example_metrics,
      RotationStep 0 example_env, RotationStep 0 example_env]"

definition example_trace :: "event list" where
  "example_trace =
     [Advance 101000000000, Tick example_metrics,
      RotationStep 0 example_env, RotationStep 0 example_env,
      Advance 5000000000, Tick example_metrics]"


definition example_disconnect_trace :: "event list" where
  "example_disconnect_trace =
     [Advance 101000000000, Tick example_metrics,
      RotationStep 0 example_env, RotationStep 0 example_env,
      Disconnect ''agent-1'', Advance 20000000000, RotationStep 0 example_env]"

text \<open>
  A rounding function that agrees with IEEE double precision on the two inexact
  operations of one normalisation: \<open>1000 / 769\<close> rounds to
  \<open>5856436446515599 / 2^52\<close>, and \<open>769\<close> times that rounds to \<open>1000 - 2^-43\<close>.
\<close>

definition example_rounding :: "real \<Rightarrow> real" where
  "example_rounding x =
     (if x = 1000 / 769 then 5856436446515599 / 4503599627370496
      else if x = 769 * (5856436446515599 / 4503599627370496)
           then 8796093022207999 / 8796093022208
           else x)"

section \<open>Properties of package bandwidth\<close>

lemma Clamp64_bounds:
  "mn \<le> mx \<Longrightarrow> mn \<le> Clamp64 v mn mx \<and> Clamp64 v mn mx \<le> mx"
  by (simp add: Clamp64_def)

lemma length_normalizeAllocations:
  "length (normalizeAllocations fl t mn mx as) = length as"
  by (simp add: normalizeAllocations_def Let_def)

lemma normalizeAllocations_bounds:
  assumes "mn \<le> mx" and "\<forall>a\<in>set as. mn \<le> a \<and> a \<le> mx"
    and "x \<in> set (normalizeAllocations fl t mn mx as)"
  shows "mn \<le> x \<and> x \<le> mx"
proof (cases "sum_list as \<noteq> toInt t \<and> sum_list as > 0")
  case True
  with assms(3) obtain v where "x = Clamp64 v mn mx"
    by (auto simp: normalizeAllocations_def Let_def)
  with assms(1) show ?thesis by (simp add: Clamp64_bounds)
next
  case False
  with assms(3) have "x \<in> set as"
    by (auto simp: normalizeAllocations_def Let_def)
  with assms(2) show ?thesis by blast
qed

lemma allocateOne_bounds:
  "mn \<le> mx \<Longrightarrow>
   mn \<le> allocateOne fl t tw mn mx rf w r \<and> allocateOne fl t tw mn mx rf w r \<le> mx"
  by (simp add: allocateOne_def Let_def Clamp64_bounds)

lemma length_perturbedAllocations:
  "length (perturbedAllocations fl rnd t n mn mx rf) = n"
  by (simp add: perturbedAllocations_def Let_def)

lemma perturbedAllocations_bounds:
  "mn \<le> mx \<Longrightarrow> \<forall>a\<in>set (perturbedAllocations fl rnd t n mn mx rf). mn \<le> a \<and> a \<le> mx"
  by (auto simp: perturbedAllocations_def Let_def allocateOne_bounds)

text \<open>
  C5. For every call with \<open>numAgents > 0\<close> and \<open>minPerAgent \<le> maxPerAgent\<close> the
  allocator returns a list (it does not panic) with one entry per agent, and every
  entry lies in \<open>[minPerAgent, maxPerAgent]\<close>, whatever the random draws, the target,
  the randomness factor and the rounding are.
\<close>

theorem AllocateBandwidth_within_bounds:
  assumes "numAgents > 0" and "minPerAgent \<le> maxPerAgent"
  shows "\<exists>as. AllocateBandwidth fl rnd targetTotal numAgents minPerAgent maxPerAgent rf = Inr as
              \<and> length as = nat numAgents
              \<and> (\<forall>a\<in>set as. minPerAgent \<le> a \<and> a \<le> maxPerAgent)"
proof -
  define pre where
    "pre = perturbedAllocations fl rnd targetTotal (nat numAgents) minPerAgent maxPerAgent rf"
  have res: "AllocateBandwidth fl rnd targetTotal numAgents minPerAgent maxPerAgent rf
             = Inr (normalizeAllocations fl targetTotal minPerAgent maxPerAgent pre)"
    using assms(1) by (simp add: AllocateBandwidth_def pre_def)
  have pre_b: "\<forall>a\<in>set pre. minPerAgent \<le> a \<and> a \<le> maxPerAgent"
    unfolding pre_def using assms(2) by (rule perturbedAllocations_bounds)
  have len: "length (normalizeAllocations fl targetTotal minPerAgent maxPerAgent pre)
             = nat numAgents"
    by (simp add: length_normalizeAllocations pre_def length_perturbedAllocations)
  from res len normalizeAllocations_bounds [OF assms(2) pre_b] show ?thesis
    by blast
qed

theorem AllocateBandwidth_within_bounds_witness:
  "(2::int) > 0 \<and> (400::int) \<le> 1200
   \<and> (\<exists>as. AllocateBandwidth (\<lambda>x. x) (\<lambda>i. 1/2) 10000 2 400 1200 (1/4) = Inr as
            \<and> length as = nat 2 \<and> (\<forall>a\<in>set as. 400 \<le> a \<and> a \<le> 1200))"
  using AllocateBandwidth_within_bounds [of 2 400 1200 "\<lambda>x. x" "\<lambda>i. 1/2" 10000 "1/4"] by simp

text \<open>
  C3 (as stated). With a non-positive target and one agent the allocator does not
  return the empty list: target \<open>0\<close> or \<open>-1000\<close>, one agent, bounds \<open>[400,1200]\<close>
  give \<open>[400]\<close>.
\<close>

theorem AllocateBandwidth_nonpositive_target_counterexample:
  "(0::real) \<le> 0 \<and> AllocateBandwidth (\<lambda>x. x) (\<lambda>i. 1/2) 0 1 400 1200 (1/4) = Inr [400]
   \<and> (-1000::real) \<le> 0
   \<and> AllocateBandwidth (\<lambda>x. x) (\<lambda>i. 1/2) (-1000) 1 400 1200 (1/4) = Inr [400]"
  by (simp add: AllocateBandwidth_def perturbedAllocations_def Let_def allocateOne_def
      normalizeAllocations_def toInt_def Clamp64_def)

text \<open>
  C3 (amended). With zero agents the allocator returns the empty list, whatever the
  target is. With a positive number of agents it returns one entry per agent, hence a
  non-empty list, also when the target is zero or negative. It raises no error in
  either case.
\<close>

theorem AllocateBandwidth_degenerate:
  "AllocateBandwidth fl rnd targetTotal 0 minPerAgent maxPerAgent rf = Inr []
   \<and> (0 < numAgents \<longrightarrow>
        (\<exists>as. AllocateBandwidth fl rnd targetTotal numAgents minPerAgent maxPerAgent rf = Inr as
              \<and> length as = nat numAgents \<and> as \<noteq> []))"
proof -
  have "length as = nat numAgents \<Longrightarrow> 0 < numAgents \<Longrightarrow> as \<noteq> []" for as :: "int list"
    by auto
  then show ?thesis
    by (simp add: AllocateBandwidth_def length_normalizeAllocations length_perturbedAllocations)
qed

theorem AllocateBandwidth_degenerate_witness:
  "AllocateBandwidth (\<lambda>x. x) (\<lambda>i. 1/2) (-5) 0 400 1200 (1/4) = Inr []
   \<and> (0::int) < 3
   \<and> (\<exists>as. AllocateBandwidth (\<lambda>x. x) (\<lambda>i. 1/2) (-5) 3 400 1200 (1/4) = Inr as
              \<and> length as = nat 3 \<and> as \<noteq> [])"
  using AllocateBandwidth_degenerate [of "\<lambda>x. x" "\<lambda>i. 1/2" "-5" 400 1200 "1/4" 3] by simp

text \<open>
  C4 (as stated). Two agents, bounds \<open>[400,600]\<close>, target \<open>1100\<close> (inside the feasible
  range \<open>800 .. 1200\<close>), weight draws \<open>0\<close> and \<open>1/2\<close>, variation draws \<open>1/2\<close>: the
  proportional shares \<open>366\<close> and \<open>733\<close> are clamped to \<open>400\<close> and \<open>600\<close>, rescaled by
  \<open>1100/1000\<close> to \<open>440\<close> and \<open>660\<close>, and the last clamp cuts \<open>660\<close> down to \<open>600\<close>.
  The sum \<open>1040\<close> misses the target by \<open>60\<close>.
\<close>

theorem AllocateBandwidth_sum_counterexample:
  "(2::int) > 0 \<and> (400::int) \<le> 600 \<and> 2 * 400 \<le> (1100::real) \<and> (1100::real) \<le> 2 * 600
   \<and> AllocateBandwidth (\<lambda>x. x) (\<lambda>i. if i = 0 then 0 else 1/2) 1100 2 400 600 (1/4)
       = Inr [440, 600]
   \<and> 1100 - real_of_int (sum_list [440, 600]) = 60"
  by (simp add: AllocateBandwidth_def perturbedAllocations_def Let_def allocateOne_def
      normalizeAllocations_def toInt_def Clamp64_def upt_conv_Cons)

lemma toInt_close: "\<bar>real_of_int (toInt x) - x\<bar> < 1"
  unfolding toInt_def by (auto; linarith)

lemma rounding_factor:
  fixes y y' :: real
  assumes "\<bar>y' - y\<bar> \<le> \<bar>y\<bar> / 2 ^ 53"
  shows "\<exists>d. \<bar>d\<bar> \<le> 1 / 2 ^ 53 \<and> y' = y * (1 + d)"
proof (cases "y = 0")
  case True
  with assms show ?thesis by (intro exI [of _ 0]) simp
next
  case False
  define d where "d = (y' - y) / y"
  have "\<bar>d\<bar> = \<bar>y' - y\<bar> / \<bar>y\<bar>" by (simp add: d_def)
  also have "\<dots> \<le> (\<bar>y\<bar> / 2 ^ 53) / \<bar>y\<bar>"
    using assms False by (intro divide_right_mono) auto
  also have "\<dots> = 1 / 2 ^ 53" using False by simp
  finally have "\<bar>d\<bar> \<le> 1 / 2 ^ 53" .
  moreover have "y' = y * (1 + d)" using False by (simp add: d_def field_simps)
  ultimately show ?thesis by blast
qed

lemma factor_bounds:
  fixes d1 d2 d3 d4 :: real
  assumes "\<bar>d1\<bar> \<le> 1 / 2 ^ 53" "\<bar>d2\<bar> \<le> 1 / 2 ^ 53" "\<bar>d3\<bar> \<le> 1 / 2 ^ 53" "\<bar>d4\<bar> \<le> 1 / 2 ^ 53"
  shows "\<bar>(1 + d2) * (1 + d3) * (1 + d4) / (1 + d1) - 1\<bar> \<le> 1 / 2 ^ 50"
proof -
  define u :: real where "u = 1 / 2 ^ 53"
  have u: "0 < u" "u \<le> 1 / 8" by (simp_all add: u_def)
  have e: "(1::real) / 2 ^ 50 = 8 * u" by (simp add: u_def)
  have b: "1 - u \<le> 1 + d1" "1 + d1 \<le> 1 + u" "1 - u \<le> 1 + d2" "1 + d2 \<le> 1 + u"
    "1 - u \<le> 1 + d3" "1 + d3 \<le> 1 + u" "1 - u \<le> 1 + d4" "1 + d4 \<le> 1 + u"
    using assms unfolding u_def [symmetric] by (simp_all add: abs_le_iff)
  have pos: "0 < 1 - u" using u by simp
  have up2: "(1 + d2) * (1 + d3) \<le> (1 + u) * (1 + u)"
    using b pos by (intro mult_mono) auto
  have up3: "(1 + d2) * (1 + d3) * (1 + d4) \<le> (1 + u) * (1 + u) * (1 + u)"
    using b pos up2 by (intro mult_mono) auto
  have lo2: "(1 - u) * (1 - u) \<le> (1 + d2) * (1 + d3)"
    using b pos by (intro mult_mono) auto
  have lo3: "(1 - u) * (1 - u) * (1 - u) \<le> (1 + d2) * (1 + d3) * (1 + d4)"
    using b pos lo2 by (intro mult_mono) auto
  have pu: "(1 + u) * (1 + u) * (1 + u) \<le> (1 + 8 * u) * (1 - u)"
    by (simp add: u_def)
  have pl: "(1 - 8 * u) * (1 + u) \<le> (1 - u) * (1 - u) * (1 - u)"
    by (simp add: u_def)
  define N where "N = (1 + d2) * (1 + d3) * (1 + d4)"
  define D where "D = 1 + d1"
  have D: "0 < D" "1 - u \<le> D" "D \<le> 1 + u" using b pos by (simp_all add: D_def)
  have "N \<le> (1 + 8 * u) * (1 - u)" using up3 pu by (simp add: N_def)
  also have "\<dots> \<le> (1 + 8 * u) * D" using D u by (intro mult_left_mono) auto
  finally have hi: "N / D \<le> 1 + 8 * u" using D by (simp add: field_simps)
  have "(1 - 8 * u) * D \<le> (1 - 8 * u) * (1 + u)" using D u by (intro mult_left_mono) auto
  also have "\<dots> \<le> N" using lo3 pl by (simp add: N_def)
  finally have lo: "1 - 8 * u \<le> N / D" using D by (simp add: field_simps)
  from hi lo show ?thesis unfolding e N_def D_def by (simp add: abs_le_iff)
qed


lemma rescaled_close:
  fixes t :: real
  assumes fl: "roundsToNearest fl" and S: "0 < S"
  shows "\<bar>fl (fl (real_of_int a) * fl (t / fl (real_of_int S))) - real_of_int a * t / real_of_int S\<bar>
         \<le> \<bar>real_of_int a * t / real_of_int S\<bar> / 2 ^ 50"
proof -
  from fl have r: "\<And>x. \<bar>fl x - x\<bar> \<le> \<bar>x\<bar> / 2 ^ 53" by (simp add: roundsToNearest_def)
  define Sf where "Sf = fl (real_of_int S)"
  define q where "q = fl (t / Sf)"
  define af where "af = fl (real_of_int a)"
  define xf where "xf = fl (af * q)"
  obtain d1 where d1: "\<bar>d1\<bar> \<le> 1 / 2 ^ 53" "Sf = real_of_int S * (1 + d1)"
    unfolding Sf_def using rounding_factor [OF r] by blast
  obtain d3 where d3: "\<bar>d3\<bar> \<le> 1 / 2 ^ 53" "af = real_of_int a * (1 + d3)"
    unfolding af_def using rounding_factor [OF r] by blast
  obtain d2 where d2: "\<bar>d2\<bar> \<le> 1 / 2 ^ 53" "q = t / Sf * (1 + d2)"
    unfolding q_def using rounding_factor [OF r] by blast
  obtain d4 where d4: "\<bar>d4\<bar> \<le> 1 / 2 ^ 53" "xf = af * q * (1 + d4)"
    unfolding xf_def using rounding_factor [OF r] by blast
  define x where "x = real_of_int a * t / real_of_int S"
  define G where "G = (1 + d2) * (1 + d3) * (1 + d4) / (1 + d1)"
  have "\<bar>d1\<bar> < 1" using d1(1) by (rule order_le_less_trans) simp
  then have nz: "1 + d1 \<noteq> 0" by auto
  have Snz: "real_of_int S \<noteq> 0" using S by simp
  have "xf = real_of_int a * (1 + d3) * (t / (real_of_int S * (1 + d1)) * (1 + d2)) * (1 + d4)"
    by (simp only: d4(2) d3(2) d2(2) d1(2))
  also have "\<dots> = x * G"
    unfolding x_def G_def using nz Snz by simp
  finally have "xf = x * G" .
  then have "\<bar>xf - x\<bar> = \<bar>x\<bar> * \<bar>G - 1\<bar>"
    by (simp add: abs_mult [symmetric] algebra_simps)
  also have "\<dots> \<le> \<bar>x\<bar> * (1 / 2 ^ 50)"
    using factor_bounds [OF d1(1) d2(1) d3(1) d4(1)] unfolding G_def
    by (intro mult_left_mono) auto
  finally show ?thesis by (simp add: x_def xf_def af_def q_def Sf_def)
qed

lemma truncated_rescaled_close:
  fixes t :: real
  assumes "roundsToNearest fl" and "0 < S"
  shows "\<bar>real_of_int (toInt (fl (fl (real_of_int a) * fl (t / fl (real_of_int S)))))
          - real_of_int a * t / real_of_int S\<bar>
         < 1 + \<bar>real_of_int a * t / real_of_int S\<bar> / 2 ^ 50"
  using rescaled_close [OF assms, of a t]
    toInt_close [of "fl (fl (real_of_int a) * fl (t / fl (real_of_int S)))"]
  by linarith

lemma sum_list_close:
  fixes f g :: "int \<Rightarrow> real"
  assumes "xs \<noteq> []" and "\<forall>a\<in>set xs. \<bar>f a - g a\<bar> < 1 + \<bar>g a\<bar> * c"
  shows "\<bar>sum_list (map f xs) - sum_list (map g xs)\<bar>
         < real (length xs) + sum_list (map (\<lambda>a. \<bar>g a\<bar>) xs) * c"
  using assms
proof (induction xs rule: list_nonempty_induct)
  case (single x)
  then show ?case by simp
next
  case (cons x xs)
  from cons.prems have "\<bar>f x - g x\<bar> < 1 + \<bar>g x\<bar> * c" by simp
  moreover have "\<bar>sum_list (map f xs) - sum_list (map g xs)\<bar>
         < real (length xs) + sum_list (map (\<lambda>a. \<bar>g a\<bar>) xs) * c"
    using cons.IH cons.prems by simp
  ultimately show ?case by (simp add: algebra_simps)
qed

lemma sum_list_abs_scaled:
  fixes t :: real
  assumes "\<forall>a\<in>set as. 0 \<le> a" and "0 < S"
  shows "sum_list (map (\<lambda>a. \<bar>real_of_int a * t / real_of_int S\<bar>) as)
         = real_of_int (sum_list as) * \<bar>t\<bar> / real_of_int S"
  using assms(1)
proof (induction as)
  case Nil
  then show ?case by simp
next
  case (Cons a as)
  then have "0 \<le> a" by simp
  then have "\<bar>real_of_int a * t / real_of_int S\<bar> = real_of_int a * \<bar>t\<bar> / real_of_int S"
    using assms(2) by (simp add: abs_mult)
  with Cons show ?case by (simp add: algebra_simps add_divide_distrib)
qed

lemma of_int_sum_list: "real_of_int (sum_list xs) = sum_list (map real_of_int xs)"
  by (induction xs) simp_all

lemma sum_list_scaled:
  "sum_list (map (\<lambda>a. real_of_int a * t / real_of_int S) as)
   = real_of_int (sum_list as) * t / real_of_int S"
  by (induction as) (simp_all add: algebra_simps add_divide_distrib)

lemma normalizeAllocations_sum:
  assumes fl: "roundsToNearest fl"
    and pos: "0 < sum_list as"
    and nonneg: "\<forall>a\<in>set as. 0 \<le> a"
    and idle: "\<forall>a\<in>set as.
        Clamp64 (toInt (fl (fl (real_of_int a) * fl (t / fl (real_of_int (sum_list as)))))) mn mx
        = toInt (fl (fl (real_of_int a) * fl (t / fl (real_of_int (sum_list as)))))"
  shows "\<bar>real_of_int (sum_list (normalizeAllocations fl t mn mx as)) - t\<bar>
         < real (length as) + \<bar>t\<bar> / 2 ^ 50"
proof -
  from pos have ne: "as \<noteq> []" by auto
  then have len: "1 \<le> real (length as)" by (cases as) auto
  show ?thesis
  proof (cases "sum_list as \<noteq> toInt t")
    case False
    then have "normalizeAllocations fl t mn mx as = as" "sum_list as = toInt t"
      by (simp_all add: normalizeAllocations_def)
    with toInt_close [of t] len show ?thesis by simp
  next
    case True
    define S where "S = sum_list as"
    define f where "f = (\<lambda>a. real_of_int (toInt (fl (fl (real_of_int a) * fl (t / fl (real_of_int S))))))"
    define g where "g = (\<lambda>a. real_of_int a * t / real_of_int S)"
    have S: "0 < S" using pos by (simp add: S_def)
    have "normalizeAllocations fl t mn mx as
          = map (\<lambda>a. toInt (fl (fl (real_of_int a) * fl (t / fl (real_of_int S))))) as"
      using True pos idle by (simp add: normalizeAllocations_def Let_def S_def)
    then have sum: "real_of_int (sum_list (normalizeAllocations fl t mn mx as)) = sum_list (map f as)"
      by (simp add: f_def comp_def of_int_sum_list)
    have each: "\<forall>a\<in>set as. \<bar>f a - g a\<bar> < 1 + \<bar>g a\<bar> * (1 / 2 ^ 50)"
      using truncated_rescaled_close [OF fl S, of _ t] by (simp add: f_def g_def)
    have gs: "sum_list (map g as) = t"
      unfolding g_def sum_list_scaled using S by (simp add: S_def)
    have ga: "sum_list (map (\<lambda>a. \<bar>g a\<bar>) as) = \<bar>t\<bar>"
      unfolding g_def sum_list_abs_scaled [OF nonneg S] using S by (simp add: S_def)
    from sum_list_close [OF ne each] show ?thesis
      unfolding sum gs ga by simp
  qed
qed

lemma roundsToNearest_example_rounding: "roundsToNearest example_rounding"
  unfolding roundsToNearest_def
proof
  fix x :: real
  show "\<bar>example_rounding x - x\<bar> \<le> \<bar>x\<bar> / 2 ^ 53"
    by (simp add: example_rounding_def)
qed

text \<open>
  C4 (amended). For every call with \<open>numAgents > 0\<close> and
  \<open>0 \<le> minPerAgent \<le> maxPerAgent\<close>, under round-to-nearest arithmetic: if the sum of
  the clamped and perturbed allocations (the slice before normalisation) is positive
  and the last clamp leaves every rescaled value as it is, then the sum of the
  returned allocations differs from \<open>targetTotal\<close> by less than
  \<open>numAgents + |targetTotal| \<times> 2^-50\<close>: one unit of truncation per agent and the
  rounding of the rescaling.
\<close>

theorem AllocateBandwidth_sum_near_target:
  assumes "roundsToNearest fl"
    and "numAgents > 0" and "0 \<le> minPerAgent" and "minPerAgent \<le> maxPerAgent"
    and "pre = perturbedAllocations fl rnd targetTotal (nat numAgents) minPerAgent maxPerAgent rf"
    and "0 < sum_list pre"
    and "\<forall>a\<in>set pre.
           Clamp64 (toInt (fl (fl (real_of_int a)
                               * fl (targetTotal / fl (real_of_int (sum_list pre))))))
                   minPerAgent maxPerAgent
           = toInt (fl (fl (real_of_int a) * fl (targetTotal / fl (real_of_int (sum_list pre)))))"
  shows "\<exists>as. AllocateBandwidth fl rnd targetTotal numAgents minPerAgent maxPerAgent rf = Inr as
              \<and> \<bar>real_of_int (sum_list as) - targetTotal\<bar>
                  < real_of_int numAgents + \<bar>targetTotal\<bar> / 2 ^ 50"
proof -
  have res: "AllocateBandwidth fl rnd targetTotal numAgents minPerAgent maxPerAgent rf
        = Inr (normalizeAllocations fl targetTotal minPerAgent maxPerAgent pre)"
    using assms(2,5) by (simp add: AllocateBandwidth_def)
  have len: "length pre = nat numAgents"
    by (simp add: assms(5) length_perturbedAllocations)
  have nonneg: "\<forall>a\<in>set pre. 0 \<le> a"
    using perturbedAllocations_bounds [OF assms(4), of fl rnd targetTotal "nat numAgents" rf]
      assms(3) unfolding assms(5) by fastforce
  from normalizeAllocations_sum [OF assms(1) assms(6) nonneg assms(7)] res len assms(2)
  show ?thesis by simp
qed

text \<open>
  The witness is the call with target \<open>1000\<close>, one agent, bounds \<open>[400,1200]\<close>,
  randomness \<open>1/4\<close> and draws \<open>1/2\<close> and \<open>39/1024\<close>, under \<open>example_rounding\<close>: the
  slice before normalisation is \<open>[769]\<close>, and \<open>769 \<times> fl (1000 / 769)\<close> rounds to
  \<open>1000 - 2^-43\<close>, which truncates to \<open>999\<close>.
\<close>

lemma example_rounding_pre:
  "perturbedAllocations example_rounding (\<lambda>i. if i = 0 then 1/2 else 39/1024) 1000 (nat 1)
     400 1200 (1/4) = [769]"
  by (simp add: perturbedAllocations_def Let_def allocateOne_def toInt_def Clamp64_def
      example_rounding_def)

lemma example_rounding_product:
  "toInt (example_rounding (example_rounding (real_of_int 769)
            * example_rounding (1000 / example_rounding (real_of_int 769)))) = 999"
  by (simp add: example_rounding_def toInt_def)

lemma example_rounding_result:
  "AllocateBandwidth example_rounding (\<lambda>i. if i = 0 then 1/2 else 39/1024) 1000 1
     400 1200 (1/4) = Inr [999]"
proof -
  have t: "toInt 1000 = 1000" by (simp add: toInt_def)
  have "normalizeAllocations example_rounding 1000 400 1200 [769] = [999]"
    using example_rounding_product t by (simp add: normalizeAllocations_def Let_def Clamp64_def)
  then show ?thesis
    using example_rounding_pre by (simp add: AllocateBandwidth_def)
qed

theorem AllocateBandwidth_sum_near_target_witness:
  "roundsToNearest example_rounding
   \<and> (1::int) > 0 \<and> (0::int) \<le> 400 \<and> (400::int) \<le> 1200
   \<and> [769] = perturbedAllocations example_rounding (\<lambda>i. if i = 0 then 1/2 else 39/1024)
               1000 (nat 1) 400 1200 (1/4)
   \<and> 0 < sum_list [769::int]
   \<and> Clamp64 (toInt (example_rounding (example_rounding (real_of_int 769)
               * example_rounding (1000 / example_rounding (real_of_int (sum_list [769]))))))
         400 1200
       = toInt (example_rounding (example_rounding (real_of_int 769)
               * example_rounding (1000 / example_rounding (real_of_int (sum_list [769])))))
   \<and> AllocateBandwidth example_rounding (\<lambda>i. if i = 0 then 1/2 else 39/1024) 1000 1
         400 1200 (1/4) = Inr [999]
   \<and> \<bar>real_of_int (sum_list [999]) - 1000\<bar> < real_of_int 1 + \<bar>1000\<bar> / 2 ^ 50"
proof -
  have one: "(1::int) > 0" and lo: "(0::int) \<le> 400" and hi: "(400::int) \<le> 1200" by simp_all
  have pre: "[769] = perturbedAllocations example_rounding (\<lambda>i. if i = 0 then 1/2 else 39/1024)
               1000 (nat 1) 400 1200 (1/4)"
    using example_rounding_pre by simp
  have pos: "0 < sum_list [769::int]" by simp
  have idle1: "Clamp64 (toInt (example_rounding (example_rounding (real_of_int 769)
               * example_rounding (1000 / example_rounding (real_of_int (sum_list [769]))))))
         400 1200
       = toInt (example_rounding (example_rounding (real_of_int 769)
               * example_rounding (1000 / example_rounding (real_of_int (sum_list [769])))))"
    using example_rounding_product by (simp add: Clamp64_def)
  then have idle: "\<forall>a\<in>set [769::int].
       Clamp64 (toInt (example_rounding (example_rounding (real_of_int a)
               * example_rounding (1000 / example_rounding (real_of_int (sum_list [769]))))))
         400 1200
       = toInt (example_rounding (example_rounding (real_of_int a)
               * example_rounding (1000 / example_rounding (real_of_int (sum_list [769])))))"
    by simp
  from AllocateBandwidth_sum_near_target
         [OF roundsToNearest_example_rounding one lo hi pre pos idle]
  have "\<bar>real_of_int (sum_list [999]) - 1000\<bar> < real_of_int 1 + \<bar>1000\<bar> / 2 ^ 50"
    unfolding example_rounding_result by simp
  with roundsToNearest_example_rounding one lo hi pre pos idle1 example_rounding_result
  show ?thesis by blast
qed

lemma staggerDelay_bounds:
  assumes "0 < b" "0 \<le> r" "r < 1"
  shows "0 \<le> staggerDelay b r i \<and> staggerDelay b r i < (real i + 1) * b"
proof -
  have "b * 0.25 * (r * 2 - 1) < b * 0.25 * 1"
    using assms by (intro mult_strict_left_mono) auto
  then have "real i * b + b * 0.25 * (r * 2 - 1) < (real i + 1) * b"
    using assms by (simp add: algebra_simps)
  then show ?thesis using assms
    by (auto simp: staggerDelay_def Let_def intro: mult_pos_pos)
qed

text \<open>
  C10. For \<open>count > 0\<close> and \<open>totalDuration > 0\<close>, with jitter draws in \<open>[0,1)\<close> as
  \<open>rand.Float64\<close> returns them, \<open>CalculateStagger\<close> returns exactly \<open>count\<close> delays,
  each at least \<open>0\<close> and strictly below \<open>totalDuration\<close>.
\<close>

theorem CalculateStagger_delays:
  assumes "count > 0" and "totalDuration > 0" and "\<forall>i. 0 \<le> rnd i \<and> rnd i < 1"
  shows "\<exists>ds. CalculateStagger rnd count totalDuration = Inr ds
              \<and> length ds = nat count
              \<and> (\<forall>d\<in>set ds. 0 \<le> d \<and> d < totalDuration)"
proof -
  define b where "b = totalDuration / real_of_int count"
  define ds where "ds = map (\<lambda>i. staggerDelay b (rnd i) i) [0..<nat count]"
  have bpos: "0 < b" using assms(1,2) by (simp add: b_def)
  have res: "CalculateStagger rnd count totalDuration = Inr ds"
    using assms(1) by (simp add: CalculateStagger_def Let_def b_def ds_def)
  have "0 \<le> d \<and> d < totalDuration" if "d \<in> set ds" for d
  proof -
    from that obtain i where i: "i < nat count" and d: "d = staggerDelay b (rnd i) i"
      by (auto simp: ds_def)
    from i have "real i + 1 \<le> real_of_int count" by linarith
    then have "(real i + 1) * b \<le> real_of_int count * b"
      using bpos by (intro mult_right_mono) auto
    also have "real_of_int count * b = totalDuration"
      using assms(1) by (simp add: b_def)
    finally show ?thesis
      using staggerDelay_bounds [OF bpos, of "rnd i" i] assms(3) d by force
  qed
  with res show ?thesis by (auto simp: ds_def)
qed

theorem CalculateStagger_delays_witness:
  "(2::int) > 0 \<and> (20::real) > 0 \<and> (\<forall>i::nat. (0::real) \<le> 1/4 \<and> (1/4::real) < 1)
   \<and> (\<exists>ds. CalculateStagger (\<lambda>i. 1/4) 2 20 = Inr ds \<and> length ds = nat 2
            \<and> (\<forall>d\<in>set ds. 0 \<le> d \<and> d < 20))"
  using CalculateStagger_delays [of 2 20 "\<lambda>i. 1/4"] by simp

lemma toInt_unit: "0 \<le> x \<Longrightarrow> x < 1 \<Longrightarrow> toInt x = 0"
  by (simp add: toInt_def floor_eq_iff)

lemma toInt_ge_one: "1 \<le> x \<Longrightarrow> 1 \<le> toInt x"
  by (simp add: toInt_def le_floor_iff)

lemma CalculateConcurrency_at_225: "3 \<le> CalculateConcurrency 1 225 2 4 (3/10)"
proof -
  define w1 w2 w3 :: real where "w1 = sin (225 / 300)" and "w2 = sin (225 / 180)"
    and "w3 = sin (225 / 420)"
  have p: "2 \<le> pi" by (rule pi_ge_two)
  have s1: "0 < w1" unfolding w1_def using p by (intro sin_gt_zero) auto
  have s2: "0 < w2" unfolding w2_def using p by (intro sin_gt_zero) auto
  have s3: "0 < w3" unfolding w3_def using p by (intro sin_gt_zero) auto
  have u: "w1 \<le> 1" "w2 \<le> 1" "w3 \<le> 1" by (simp_all add: w1_def w2_def w3_def)
  define c where "c = (w1 + w2 * 0.5 + w3 * 0.3) / 1.8"
  have ceq: "18 * c = 10 * w1 + 5 * w2 + 3 * w3" by (simp add: c_def)
  have c0: "0 < c" using s1 s2 s3 ceq by linarith
  have c1: "c \<le> 1" using u ceq by linarith
  have "1 \<le> 2 * ((c + 1) / 2)" using c0 by simp
  then have t1: "1 \<le> toInt (2 * ((c + 1) / 2))" by (rule toInt_ge_one)
  have "2 * ((c + 1) / 2) \<le> 2" using c1 by simp
  then have t2: "toInt (2 * ((c + 1) / 2)) \<le> 2"
    using c0 by (simp add: toInt_def floor_le_iff)
  have "CalculateConcurrency 1 225 2 4 (3/10) = Clamp (2 + toInt (2 * ((c + 1) / 2))) 2 4"
    unfolding CalculateConcurrency_def Let_def c_def w1_def w2_def w3_def by simp
  with t1 t2 show ?thesis by (simp add: Clamp_def)
qed

lemma wave_reference_at_225: "wave_reference 1 225 2 4 = 2"
proof -
  have a1: "sinusoid 300 225 = -1"
  proof -
    have "2 * pi * 225 / 300 = 3 / 2 * pi" by simp
    then show ?thesis unfolding sinusoid_def using sin_3over2_pi by simp
  qed
  have a2: "sinusoid 180 225 = 1"
  proof -
    have "2 * pi * 225 / 180 = pi / 2 + 2 * pi" by simp
    then have "sinusoid 180 225 = sin (pi / 2 + 2 * pi)" unfolding sinusoid_def by simp
    also have "\<dots> = 1" by (simp only: sin_periodic sin_pi_half)
    finally show ?thesis .
  qed
  have a3: "-1 \<le> sinusoid 420 225 \<and> sinusoid 420 225 \<le> 0"
  proof -
    have "2 * pi * 225 / 420 = pi / 14 + pi" by simp
    then have "sinusoid 420 225 = sin (pi / 14 + pi)" unfolding sinusoid_def by simp
    also have "\<dots> = - sin (pi / 14)" by (simp only: sin_periodic_pi)
    finally have e: "sinusoid 420 225 = - sin (pi / 14)" .
    have "0 \<le> sin (pi / 14)" by (intro sin_ge_zero) (auto simp: pi_ge_zero)
    with e sin_le_one [of "pi / 14"] show ?thesis by simp
  qed
  define s where "s = sinusoid 420 225"
  define c where "c = (1.0 * (-1) + 0.5 * 1 + 0.3 * s) / 1.8"
  have sb: "-1 \<le> s" "s \<le> 0" using a3 by (simp_all add: s_def)
  have ceq: "2 * ((c + 1) / 2) = (13 + 3 * s) / 18" by (simp add: c_def field_simps)
  have "0 \<le> 2 * ((c + 1) / 2)" "2 * ((c + 1) / 2) < 1"
    unfolding ceq using sb by simp_all
  then have "toInt (2 * ((c + 1) / 2)) = 0" by (rule toInt_unit)
  moreover have "wave_reference 1 225 2 4 = Clamp (2 + toInt (2 * ((c + 1) / 2))) 2 4"
    unfolding wave_reference_def Let_def c_def s_def a1 a2 by simp
  ultimately show ?thesis by (simp add: Clamp_def)
qed

text \<open>
  C6. The claim reads the wave as three sinusoids of periods 300 s, 180 s and 420 s,
  as the comments of the source do ("5-minute cycle", "3-minute cycle", "7-minute
  cycle"). The source computes \<open>sin (t / 300)\<close>, \<open>sin (t / 180)\<close> and
  \<open>sin (t / 420)\<close>, whose periods are \<open>2 \<pi>\<close> times longer. At \<open>t = 225\<close> seconds,
  with bounds \<open>[2,4]\<close> and perturbation \<open>0\<close>, the reference definition yields \<open>2\<close>
  and the source yields at least \<open>3\<close>.
\<close>

theorem CalculateConcurrency_differs_from_reference:
  "wave_reference 1 225 2 4 = 2 \<and> 3 \<le> CalculateConcurrency 1 225 2 4 (3/10)
   \<and> CalculateConcurrency 1 225 2 4 (3/10) \<noteq> wave_reference 1 225 2 4"
  using CalculateConcurrency_at_225 wave_reference_at_225 by simp

lemma length_removeAt: "idx < length xs \<Longrightarrow> length (removeAt idx xs) = length xs - 1"
  by (simp add: removeAt_def)

lemma set_removeAt: "set (removeAt idx xs) \<subseteq> set xs"
  by (auto simp: removeAt_def dest: in_set_takeD in_set_dropD)

lemma distinct_move:
  assumes "distinct (sel @ xs)" and "idx < length xs"
  shows "distinct ((sel @ [xs ! idx]) @ removeAt idx xs)"
proof -
  from assms(2) have "xs = take idx xs @ xs ! idx # drop (Suc idx) xs"
    by (rule id_take_nth_drop)
  then obtain a b where xs: "xs = a @ xs ! idx # b" and r: "removeAt idx xs = a @ b"
    by (auto simp: removeAt_def)
  from assms(1) have "distinct (sel @ a @ xs ! idx # b)" using xs by metis
  then show ?thesis unfolding r by auto
qed

lemma walkCumulative_range:
  "walkCumulative r c j ws = Some idx \<Longrightarrow> j \<le> idx \<and> idx < j + length ws"
  by (induction ws arbitrary: c j) (fastforce simp: Let_def split: if_splits)+

lemma selectLoop_step:
  assumes "length ws = length av" and "idx < length av" and "k < length av"
    and "distinct (sel @ av)"
  shows "length (removeAt idx ws) = length (removeAt idx av)
         \<and> k \<le> length (removeAt idx av)
         \<and> distinct ((sel @ [av ! idx]) @ removeAt idx av)
         \<and> set (sel @ [av ! idx]) \<union> set (removeAt idx av) \<subseteq> set sel \<union> set av"
  using assms set_removeAt [of idx av] distinct_move [of sel av idx]
  by (auto simp: length_removeAt)

lemma selectLoop_correct:
  assumes "length ws = length av" and "k \<le> length av" and "distinct (sel @ av)"
  shows "\<exists>res. selectLoop ri rf k i av ws sel = Inr res \<and> length res = length sel + k
               \<and> distinct res \<and> set res \<subseteq> set sel \<union> set av"
  using assms
proof (induction k arbitrary: i av ws sel)
  case 0
  then show ?case by simp
next
  case (Suc k)
  from Suc.prems have kl: "k < length av" and ne: "length av \<noteq> 0" by auto
  define idx where "idx =
     (if sum_list ws = 0 then ri i mod length av
      else (case walkCumulative (rf i * sum_list ws) 0 0 ws of
              Some j \<Rightarrow> j | None \<Rightarrow> length av - 1))"
  have idx: "idx < length av"
    using ne Suc.prems(1) walkCumulative_range [of "rf i * sum_list ws" 0 0 ws]
    by (auto simp: idx_def split: option.splits)
  have unfold: "selectLoop ri rf (Suc k) i av ws sel
        = selectLoop ri rf k (Suc i) (removeAt idx av) (removeAt idx ws) (sel @ [av ! idx])"
  proof (cases "sum_list ws = 0")
    case True
    then show ?thesis using ne by (simp add: idx_def Let_def)
  next
    case False
    show ?thesis
    proof (cases "walkCumulative (rf i * sum_list ws) 0 0 ws")
      case None
      then have "idx = length av - 1" using False by (simp add: idx_def)
      moreover have "nat (int (length av) - 1) = length av - 1" by simp
      moreover have "\<not> int (length av) - 1 < 0" using ne by (cases av) auto
      ultimately show ?thesis using False None
        by (simp add: Let_def del: One_nat_def)
    next
      case (Some j)
      then have "idx = j" using False by (simp add: idx_def)
      then show ?thesis using False Some idx by (simp add: Let_def)
    qed
  qed
  from selectLoop_step [OF Suc.prems(1) idx kl Suc.prems(3)]
  have st: "length (removeAt idx ws) = length (removeAt idx av)"
    "k \<le> length (removeAt idx av)"
    "distinct ((sel @ [av ! idx]) @ removeAt idx av)"
    "set (sel @ [av ! idx]) \<union> set (removeAt idx av) \<subseteq> set sel \<union> set av"
    by blast+
  from Suc.IH [OF st(1,2,3), of "Suc i"] obtain res where
    res: "selectLoop ri rf k (Suc i) (removeAt idx av) (removeAt idx ws) (sel @ [av ! idx]) = Inr res"
      "length res = length (sel @ [av ! idx]) + k" "distinct res"
      "set res \<subseteq> set (sel @ [av ! idx]) \<union> set (removeAt idx av)"
    by blast
  with st(4) unfold show ?case by auto
qed

text \<open>
  C8. For every \<open>count \<ge> 0\<close>, every weight list and all random draws,
  \<open>WeightedRandomSelection\<close> returns (without panic) exactly
  \<open>min count (length weights)\<close> indices, pairwise distinct, each a valid index into
  the candidate list; when \<open>count\<close> is at least the number of candidates it returns
  all candidate indices.
\<close>

theorem WeightedRandomSelection_distinct_indices:
  assumes "0 \<le> count"
  shows "\<exists>sel. WeightedRandomSelection rndInt rndFloat count weights = Inr sel
               \<and> length sel = min (nat count) (length weights)
               \<and> distinct sel
               \<and> (\<forall>i\<in>set sel. i < length weights)
               \<and> (int (length weights) \<le> count \<longrightarrow> set sel = {0..<length weights})"
proof (cases "int (length weights) \<le> count")
  case True
  then show ?thesis by (auto simp: WeightedRandomSelection_def)
next
  case False
  then have k: "nat count \<le> length [0..<length weights]" by simp
  from selectLoop_correct [of weights "[0..<length weights]" "nat count" "[]" rndInt rndFloat 0] k
  obtain res where "selectLoop rndInt rndFloat (nat count) 0 [0..<length weights] weights [] = Inr res"
    "length res = nat count" "distinct res" "set res \<subseteq> {0..<length weights}"
    by auto
  with False assms show ?thesis
    by (auto simp: WeightedRandomSelection_def min_def)
qed

theorem WeightedRandomSelection_distinct_indices_witness:
  "(0::int) \<le> 2
   \<and> (\<exists>sel. WeightedRandomSelection (\<lambda>i. 0) (\<lambda>i. 1/2) 2 [1, 2, 3] = Inr sel
               \<and> length sel = min (nat 2) (length [1, 2, 3::real])
               \<and> distinct sel
               \<and> (\<forall>i\<in>set sel. i < length [1, 2, 3::real]))
   \<and> (0::int) \<le> 3 \<and> int (length [1, 2, 3::real]) \<le> 3
   \<and> (\<exists>sel. WeightedRandomSelection (\<lambda>i. 0) (\<lambda>i. 1/2) 3 [1, 2, 3] = Inr sel
               \<and> set sel = {0..<length [1, 2, 3::real]})"
  using WeightedRandomSelection_distinct_indices [of 2 "\<lambda>i. 0" "\<lambda>i. 1/2" "[1, 2, 3]"]
    WeightedRandomSelection_distinct_indices [of 3 "\<lambda>i. 0" "\<lambda>i. 1/2" "[1, 2, 3]"]
  by auto

section \<open>Properties of the Scheduler\<close>





lemma toInt_unit_interval: "0 \<le> x \<Longrightarrow> x \<le> 1 \<Longrightarrow> toInt x = 0 \<or> toInt x = 1"
proof -
  assume "0 \<le> x" "x \<le> 1"
  then have "0 \<le> \<lfloor>x\<rfloor>" "\<lfloor>x\<rfloor> \<le> 1" by (simp_all add: floor_le_iff)
  then have "\<lfloor>x\<rfloor> = 0 \<or> \<lfloor>x\<rfloor> = 1" by linarith
  then show ?thesis using \<open>0 \<le> x\<close> by (simp add: toInt_def)
qed

lemma CalculateConcurrency_one_of_two: "CalculateConcurrency 0 t 1 2 r = 1"
proof -
  define w1 w2 w3 where "w1 = sin (t / 300)" and "w2 = sin (t / 180)" and "w3 = sin (t / 420)"
  have b: "-1 \<le> w1" "w1 \<le> 1" "-1 \<le> w2" "w2 \<le> 1" "-1 \<le> w3" "w3 \<le> 1"
    by (simp_all add: w1_def w2_def w3_def)
  define c where "c = (w1 + w2 * 0.5 + w3 * 0.3) / 1.8"
  have ceq: "18 * c = 10 * w1 + 5 * w2 + 3 * w3" by (simp add: c_def)
  have "-1 \<le> c" "c \<le> 1" using b ceq by linarith+
  then have "0 \<le> (c + 1) / 2" "(c + 1) / 2 \<le> 1" by simp_all
  then have "toInt ((c + 1) / 2) = 0 \<or> toInt ((c + 1) / 2) = 1" by (rule toInt_unit_interval)
  moreover have "CalculateConcurrency 0 t 1 2 r = Clamp (1 + toInt ((c + 1) / 2) + (0 - 1)) 1 2"
    unfolding CalculateConcurrency_def Let_def c_def w1_def w2_def w3_def by simp
  ultimately show ?thesis by (auto simp: Clamp_def)
qed

lemma example_plan:
  "rotationPlan (rotationBegin example_scheduler) example_env
   = Inr [''agent-1'' \<mapsto> example_new_allocation]"
  by (simp add: rotationPlan_def rotationBegin_def example_scheduler_def example_env_def
      example_config_def calculateConcurrency_def CalculateConcurrency_one_of_two toInt_def
      selectAgents_def WeightedRandomSelection_def allocateBandwidth_def AllocateBandwidth_def
      perturbedAllocations_def allocateOne_def normalizeAllocations_def Clamp64_def Let_def
      example_new_allocation_def)

lemma example_active_1:
  "ActiveAgents (state example_scheduler) ''agent-1'' = Some example_allocation_1"
  by (simp add: example_scheduler_def)

lemma boostNeeded_SomeD:
  assumes "boostNeeded cfg alloc agentBW = Some d"
  shows "agentBW < real_of_int (AllocatedBW alloc) * (1 - Tolerance (Bandwidth cfg))
         \<and> d = toInt (real_of_int (AllocatedBW alloc) - agentBW)
         \<and> (if AllocatedBW alloc = 0 then 0 < real_of_int (AllocatedBW alloc) - agentBW
             else (real_of_int (AllocatedBW alloc) - agentBW) / real_of_int (AllocatedBW alloc) * 100 > 20)"
  using assms by (auto simp: boostNeeded_def Let_def split: if_splits)

lemma deficit_percent:
  fixes t d :: real
  assumes "0 \<le> t" and "if t = 0 then 0 < d else d / t * 100 > 20"
  shows "d > 0.2 * t"
proof (cases "t = 0")
  case True
  with assms show ?thesis by simp
next
  case False
  with assms have "0 < t" "d / t * 100 > 20" by auto
  then show ?thesis by (simp add: field_simps)
qed

text \<open>
  C7. If the adaptive loop spawns a boost for an agent at a tick and the boost
  goroutine delivers a command, then at the tick the phase was \<open>stable\<close>, the agent
  was active with an observed throughput below \<open>allocation \<times> (1 - tolerance)\<close> and,
  for a non-negative allocation, a shortfall above 20% of the allocation; when the
  goroutine read the deadline at least 30 seconds remained before the next
  rotation; and the bandwidth of the command is the shortfall, truncated to an
  integer and clamped to \<open>[100,500]\<close>.
\<close>

theorem boost_only_when_needed:
  assumes spawned: "adjustBandwidthIfNeeded s agg agentID = Some additionalBW"
    and issued: "boostAgentBandwidth s' now urlDraw commandID sendOk agentID additionalBW = Some cmd"
  shows "Phase (state s) = ''stable''
         \<and> (\<exists>alloc agentBW.
               ActiveAgents (state s) agentID = Some alloc
               \<and> AgentBreakdown agg agentID = Some agentBW
               \<and> agentBW < real_of_int (AllocatedBW alloc) * (1 - Tolerance (Bandwidth (config s)))
               \<and> (0 \<le> AllocatedBW alloc \<longrightarrow>
                    real_of_int (AllocatedBW alloc) - agentBW > 0.2 * real_of_int (AllocatedBW alloc))
               \<and> Bandwidth_cmd cmd = Clamp64 (toInt (real_of_int (AllocatedBW alloc) - agentBW)) 100 500)
         \<and> 30 * second \<le> NextRotation (state s') - now
         \<and> Duration cmd = NextRotation (state s') - now"
proof -
  from spawned have ph: "Phase (state s) = ''stable''"
    by (auto simp: adjustBandwidthIfNeeded_def split: if_splits)
  from spawned ph obtain alloc agentBW where
    a: "ActiveAgents (state s) agentID = Some alloc"
    and b: "AgentBreakdown agg agentID = Some agentBW"
    and n: "boostNeeded (config s) alloc agentBW = Some additionalBW"
    by (auto simp: adjustBandwidthIfNeeded_def split: option.splits)
  note d = boostNeeded_SomeD [OF n]
  from issued have t: "30 * second \<le> NextRotation (state s') - now"
    and dur: "Duration cmd = NextRotation (state s') - now"
    and bw: "Bandwidth_cmd cmd = Clamp64 additionalBW 100 500"
    by (auto simp: boostAgentBandwidth_def Let_def Clamp64_def split: if_splits)
  have pc: "0 \<le> AllocatedBW alloc \<longrightarrow>
       real_of_int (AllocatedBW alloc) - agentBW > 0.2 * real_of_int (AllocatedBW alloc)"
    using d deficit_percent [of "real_of_int (AllocatedBW alloc)" "real_of_int (AllocatedBW alloc) - agentBW"]
    by auto
  from ph a b d pc bw t dur show ?thesis by auto
qed

theorem boost_only_when_needed_witness:
  "adjustBandwidthIfNeeded example_scheduler example_metrics ''agent-1'' = Some 320
   \<and> boostAgentBandwidth example_scheduler (10 * second) 0 ''command-3'' True ''agent-1'' 320
       = Some \<lparr>CommandID = ''command-3'', URL_cmd = ''https://example.com/file'',
                Duration = 90 * second, Bandwidth_cmd = 320, StartDelay = []\<rparr>
   \<and> Phase (state example_scheduler) = ''stable''
   \<and> 30 * second \<le> NextRotation (state example_scheduler) - 10 * second
   \<and> (\<exists>alloc agentBW.
         ActiveAgents (state example_scheduler) ''agent-1'' = Some alloc
         \<and> AgentBreakdown example_metrics ''agent-1'' = Some agentBW
         \<and> 0 \<le> AllocatedBW alloc
         \<and> real_of_int (AllocatedBW alloc) - agentBW > 0.2 * real_of_int (AllocatedBW alloc)
         \<and> (320::int) = Clamp64 (toInt (real_of_int (AllocatedBW alloc) - agentBW)) 100 500)"
proof -
  have sp: "adjustBandwidthIfNeeded example_scheduler example_metrics ''agent-1'' = Some 320"
    by (simp add: adjustBandwidthIfNeeded_def boostNeeded_def example_scheduler_def
        example_metrics_def example_config_def example_allocation_1_def toInt_def Let_def)
  have iss: "boostAgentBandwidth example_scheduler (10 * second) 0 ''command-3'' True ''agent-1'' 320
       = Some \<lparr>CommandID = ''command-3'', URL_cmd = ''https://example.com/file'',
                Duration = 90 * second, Bandwidth_cmd = 320, StartDelay = []\<rparr>"
    by (simp add: boostAgentBandwidth_def selectRandomURL_def example_scheduler_def
        example_config_def second_def Let_def)
  have nn: "0 \<le> AllocatedBW example_allocation_1" by (simp add: example_allocation_1_def)
  from boost_only_when_needed [OF sp iss] sp iss nn example_active_1
  show ?thesis by auto
qed

text \<open>
  C9. The disconnect notification removes the entry of the given agent id from the
  active-allocation map and changes nothing else: every other allocation, the
  worker registry, the phase, the rotation counter, the deadlines, the throughput
  figures, the configuration and the start time are as before.
\<close>

theorem OnAgentDisconnect_frame:
  "ActiveAgents (state (OnAgentDisconnect s agentID)) agentID = None
   \<and> (\<forall>other. other \<noteq> agentID \<longrightarrow>
         ActiveAgents (state (OnAgentDisconnect s agentID)) other = ActiveAgents (state s) other)
   \<and> agentStatus (OnAgentDisconnect s agentID) = agentStatus s
   \<and> Phase (state (OnAgentDisconnect s agentID)) = Phase (state s)
   \<and> RotationCount (state (OnAgentDisconnect s agentID)) = RotationCount (state s)
   \<and> NextRotation (state (OnAgentDisconnect s agentID)) = NextRotation (state s)
   \<and> LastRotation (state (OnAgentDisconnect s agentID)) = LastRotation (state s)
   \<and> TargetTotalBW (state (OnAgentDisconnect s agentID)) = TargetTotalBW (state s)
   \<and> CurrentTotalBW (state (OnAgentDisconnect s agentID)) = CurrentTotalBW (state s)
   \<and> config (OnAgentDisconnect s agentID) = config s
   \<and> startTime (OnAgentDisconnect s agentID) = startTime s"
  by (simp add: OnAgentDisconnect_def)

theorem OnAgentDisconnect_frame_witness:
  "ActiveAgents (state (OnAgentDisconnect example_scheduler ''agent-1'')) ''agent-1'' = None
   \<and> ''agent-2'' \<noteq> ''agent-1''
   \<and> ActiveAgents (state (OnAgentDisconnect example_scheduler ''agent-1'')) ''agent-2''
       = Some example_allocation_2
   \<and> agentStatus (OnAgentDisconnect example_scheduler ''agent-1'') ''agent-1''
       = agentStatus example_scheduler ''agent-1''"
proof -
  have "ActiveAgents (state example_scheduler) ''agent-2'' = Some example_allocation_2"
    by (simp add: example_scheduler_def)
  with OnAgentDisconnect_frame [of example_scheduler "''agent-1''"] show ?thesis by simp
qed

section \<open>Properties of ticks and rotation tasks\<close>

lemma atClock_plan_fields:
  "tConcurrency env = now \<Longrightarrow> tSelect env = now \<Longrightarrow> tAllocate env = now \<Longrightarrow>
   atClock env now = env\<lparr>tCommit := now, tSchedule := now\<rparr>"
  by (simp add: atClock_def)

lemma agentWeight_later_fields:
  "agentWeight s (env\<lparr>tCommit := a, tSchedule := b\<rparr>) = agentWeight s env"
  by (simp add: agentWeight_def fun_eq_iff)

lemma selectAgents_later_fields:
  "selectAgents s (env\<lparr>tCommit := a, tSchedule := b\<rparr>) = selectAgents s env"
  unfolding selectAgents_def Let_def agentWeight_later_fields
  by (simp cong: if_cong sum.case_cong)

lemma allocateBandwidth_later_fields:
  "allocateBandwidth s (env\<lparr>tCommit := a, tSchedule := b\<rparr>) = allocateBandwidth s env"
  unfolding allocateBandwidth_def by (simp cong: if_cong sum.case_cong)

lemma rotationPlan_atClock:
  "tConcurrency env = now \<Longrightarrow> tSelect env = now \<Longrightarrow> tAllocate env = now \<Longrightarrow>
   rotationPlan s (atClock env now) = rotationPlan s env"
  unfolding atClock_plan_fields rotationPlan_def calculateConcurrency_def Let_def
    selectAgents_later_fields allocateBandwidth_later_fields
  by (simp cong: if_cong sum.case_cong)

lemma example_atClock:
  "rotationPlan s (atClock example_env (101 * second)) = rotationPlan s example_env"
  by (rule rotationPlan_atClock) (simp_all add: example_env_def)


lemma example_plan_step:
  "rotationStep example_env (101 * second) (rotationBegin example_scheduler)
     (newRotation (101 * second)\<lparr>pc := AtPlan\<rparr>)
   = Inr (rotationBegin example_scheduler, Some example_task_planned)"
proof -
  have stop: "\<exists>agentID \<in> dom (ActiveAgents (state (rotationBegin example_scheduler))).
      findAgentsToStop (rotationBegin example_scheduler)
        [''agent-1'' \<mapsto> example_new_allocation] agentID"
    by (simp add: findAgentsToStop_def rotationBegin_def example_scheduler_def)
  have rd: "RampDownDuration (Scheduler (config (rotationBegin example_scheduler))) = 20 * second"
    by (simp add: rotationBegin_def example_scheduler_def example_config_def)
  have w: "101 * second + 20 * second = 121 * second" by simp
  show ?thesis
    using stop
    by (simp add: rotationStep_def newRotation_def example_atClock example_plan rd w Let_def
        example_task_planned_def)
qed



lemma run_append:
  "run sys (es @ es') = (case run sys es of Inl p \<Rightarrow> Inl p | Inr sys' \<Rightarrow> run sys' es')"
  by (induction es arbitrary: sys) (simp_all split: sum.splits)

lemma applyEvent_Advance:
  "applyEvent sys (Advance d) = Inr (sys\<lparr>clock := clock sys + int d\<rparr>)"
  by (simp add: applyEvent_def)

lemma applyEvent_Disconnect:
  "applyEvent sys (Disconnect agentID)
   = Inr (sys\<lparr>sched := OnAgentDisconnect (sched sys) agentID\<rparr>)"
  by (simp add: applyEvent_def)

lemma applyEvent_Tick_due:
  "NextRotation (state (sched sys)) < clock sys \<Longrightarrow>
   applyEvent sys (Tick agg) = Inr (sys\<lparr>tasks := tasks sys @ [newRotation (clock sys)]\<rparr>)"
  by (simp add: applyEvent_def evaluateAndAdjust_def)

lemma applyEvent_RotationStep_first:
  assumes "tasks sys = task # rest"
    and "rotationStep env (clock sys) (sched sys) task = Inr (s', Some task')"
  shows "applyEvent sys (RotationStep 0 env) = Inr (sys\<lparr>sched := s', tasks := task' # rest\<rparr>)"
  using assms by (simp add: applyEvent_def)

lemma example_start_run:
  "run example_system example_start
   = Inr \<lparr>sched = rotationBegin example_scheduler, clock = 101 * second,
          tasks = [example_task_planned]\<rparr>"
proof -
  define s0 where "s0 = \<lparr>sched = example_scheduler, clock = 101 * second, tasks = []\<rparr>"
  define s1 where "s1 = \<lparr>sched = example_scheduler, clock = 101 * second,
                          tasks = [newRotation (101 * second)]\<rparr>"
  define s2 where "s2 = \<lparr>sched = rotationBegin example_scheduler, clock = 101 * second,
                          tasks = [newRotation (101 * second)\<lparr>pc := AtPlan\<rparr>]\<rparr>"
  define s3 where "s3 = \<lparr>sched = rotationBegin example_scheduler, clock = 101 * second,
                          tasks = [example_task_planned]\<rparr>"
  have e1: "applyEvent example_system (Advance 101000000000) = Inr s0"
    by (simp add: applyEvent_Advance s0_def example_system_def second_def)
  have due: "NextRotation (state (sched s0)) < clock s0"
    by (simp add: s0_def example_scheduler_def second_def)
  have e2: "applyEvent s0 (Tick example_metrics) = Inr s1"
    using applyEvent_Tick_due [OF due] by (simp add: s0_def s1_def)
  have "rotationStep example_env (clock s1) (sched s1) (newRotation (101 * second))
        = Inr (rotationBegin example_scheduler, Some (newRotation (101 * second)\<lparr>pc := AtPlan\<rparr>))"
    by (simp add: rotationStep_def newRotation_def s1_def)
  from applyEvent_RotationStep_first [OF _ this]
  have e3: "applyEvent s1 (RotationStep 0 example_env) = Inr s2"
    by (simp add: s1_def s2_def)
  have "rotationStep example_env (clock s2) (sched s2) (newRotation (101 * second)\<lparr>pc := AtPlan\<rparr>)
        = Inr (rotationBegin example_scheduler, Some example_task_planned)"
    using example_plan_step by (simp add: s2_def)
  from applyEvent_RotationStep_first [OF _ this]
  have e4: "applyEvent s2 (RotationStep 0 example_env) = Inr s3"
    by (simp add: s2_def s3_def)
  show ?thesis
    unfolding example_start_def s3_def [symmetric]
    by (simp only: run.simps e1 e2 e3 e4 sum.case)
qed

lemma example_run:
  "run example_system example_trace
   = Inr \<lparr>sched = rotationBegin example_scheduler, clock = 106 * second,
          tasks = [example_task_planned, newRotation (106 * second)]\<rparr>"
proof -
  define s3 where "s3 = \<lparr>sched = rotationBegin example_scheduler, clock = 101 * second,
                          tasks = [example_task_planned]\<rparr>"
  define s4 where "s4 = \<lparr>sched = rotationBegin example_scheduler, clock = 106 * second,
                          tasks = [example_task_planned]\<rparr>"
  have tr: "example_trace = example_start @ [Advance 5000000000, Tick example_metrics]"
    by (simp add: example_trace_def example_start_def)
  have e5: "applyEvent s3 (Advance 5000000000) = Inr s4"
    by (simp add: applyEvent_Advance s3_def s4_def second_def)
  have due: "NextRotation (state (sched s4)) < clock s4"
    by (simp add: s4_def rotationBegin_def example_scheduler_def second_def)
  have e6: "applyEvent s4 (Tick example_metrics)
            = Inr (s4\<lparr>tasks := [example_task_planned, newRotation (106 * second)]\<rparr>)"
    using applyEvent_Tick_due [OF due] by (simp add: s4_def)
  have "run s3 [Advance 5000000000, Tick example_metrics]
        = Inr (s4\<lparr>tasks := [example_task_planned, newRotation (106 * second)]\<rparr>)"
    by (simp only: run.simps e5 e6 sum.case)
  then show ?thesis
    unfolding tr run_append example_start_run s3_def [symmetric]
    by (simp add: s4_def)
qed


text \<open>
  A disconnect during the ramp-down wait removes the worker from the active map,
  so the start diff, taken afterwards, puts a worker of the newly computed set into
  the start set although it was active when the rotation began.
\<close>

lemma example_disconnect_run:
  "\<exists>sys' task. run example_system example_disconnect_trace = Inr sys'
      \<and> tasks sys' = [task] \<and> pc task = AtCommit
      \<and> ActiveAgents (state example_scheduler) ''agent-1'' = Some example_allocation_1
      \<and> planned task ''agent-1'' = Some example_new_allocation
      \<and> toStart task ''agent-1'' = Some example_new_allocation"
proof -
  define s3 where "s3 = \<lparr>sched = rotationBegin example_scheduler, clock = 101 * second,
                          tasks = [example_task_planned]\<rparr>"
  define sd where "sd = OnAgentDisconnect (rotationBegin example_scheduler) ''agent-1''"
  define s4 where "s4 = \<lparr>sched = sd, clock = 101 * second, tasks = [example_task_planned]\<rparr>"
  define s5 where "s5 = \<lparr>sched = sd, clock = 121 * second, tasks = [example_task_planned]\<rparr>"
  define task where "task = example_task_planned
       \<lparr>pc := AtCommit,
        toStart := findAgentsToStart (rotationRampUp sd) [''agent-1'' \<mapsto> example_new_allocation]\<rparr>"
  define s6 where "s6 = \<lparr>sched = rotationRampUp sd, clock = 121 * second, tasks = [task]\<rparr>"
  have tr: "example_disconnect_trace
            = example_start @ [Disconnect ''agent-1'', Advance 20000000000,
                               RotationStep 0 example_env]"
    by (simp add: example_disconnect_trace_def example_start_def)
  have e5: "applyEvent s3 (Disconnect ''agent-1'') = Inr s4"
    by (simp add: applyEvent_Disconnect s3_def s4_def sd_def)
  have e6: "applyEvent s4 (Advance 20000000000) = Inr s5"
    by (simp add: applyEvent_Advance s4_def s5_def second_def)
  have "rotationStep example_env (clock s5) (sched s5) example_task_planned
        = Inr (rotationRampUp sd, Some task)"
    by (simp add: rotationStep_def example_task_planned_def task_def s5_def Let_def)
  from applyEvent_RotationStep_first [OF _ this]
  have e7: "applyEvent s5 (RotationStep 0 example_env) = Inr s6"
    by (simp add: s5_def s6_def)
  have r: "run example_system example_disconnect_trace = Inr s6"
    unfolding tr run_append example_start_run s3_def [symmetric]
    by (simp only: run.simps e5 e6 e7 sum.case)
  have "toStart task ''agent-1'' = Some example_new_allocation"
    by (simp add: task_def findAgentsToStart_def rotationRampUp_def sd_def
        OnAgentDisconnect_def rotationBegin_def)
  moreover have "planned task ''agent-1'' = Some example_new_allocation"
    by (simp add: task_def example_task_planned_def)
  moreover have "pc task = AtCommit" by (simp add: task_def)
  ultimately show ?thesis using r example_active_1 by (simp add: s6_def)
qed







lemma rotationStep_keeps_deadline:
  assumes "rotationStep env now s task = Inr (s', Some task')"
  shows "NextRotation (state s') = NextRotation (state s)"
  using assms
  by (auto simp: rotationStep_def rotationBegin_def rotationRampUp_def rotationCommit_def Let_def
      split: rotation_pc.splits sum.splits if_splits)

text \<open>
  C2 (as stated). In the example trace the tick at \<open>101 s\<close> starts a rotation, which
  enters \<open>ramping_down\<close>, plans and then sleeps until \<open>121 s\<close>. The tick at
  \<open>106 s\<close> still finds the clock past the deadline of \<open>100 s\<close> and starts a second
  rotation task while the first one is executing.
\<close>

theorem rotations_not_serialized_counterexample:
  "\<exists>sys'. run example_system example_trace = Inr sys'
      \<and> length (tasks sys') = 2
      \<and> pc (tasks sys' ! 0) = AtRampUp \<and> clock sys' < wakeAt (tasks sys' ! 0)
      \<and> pc (tasks sys' ! 1) = AtBegin"
  using example_run by (simp add: second_def example_task_planned_def newRotation_def)

text \<open>
  C2 (amended). Rotations are not serialized. A periodic tick is atomic and starts
  exactly one new rotation task whenever the clock is past the stored next-rotation
  deadline, whether or not earlier rotation tasks are still executing, and starts
  none otherwise. A tick never moves the deadline, so several rotation tasks can be
  in flight at once.
\<close>

theorem tick_starts_rotation:
  "\<exists>sys'. applyEvent sys (Tick agg) = Inr sys'
      \<and> clock sys' = clock sys
      \<and> NextRotation (state (sched sys')) = NextRotation (state (sched sys))
      \<and> (if clock sys > NextRotation (state (sched sys))
          then tasks sys' = tasks sys @ [\<lparr>pc = AtBegin, planned = Map.empty,
                                          toStop = (\<lambda>agentID. False), toStart = Map.empty,
                                          wakeAt = clock sys\<rparr>]
          else tasks sys' = tasks sys)"
  by (simp add: applyEvent_def evaluateAndAdjust_def newRotation_def Let_def)

theorem tick_starts_rotation_witness:
  "clock (example_system\<lparr>clock := 101 * second,
            tasks := [newRotation (101 * second)\<lparr>pc := AtPlan\<rparr>]\<rparr>)
     > NextRotation (state (sched example_system))
   \<and> (\<exists>sys'. applyEvent (example_system\<lparr>clock := 101 * second,
            tasks := [newRotation (101 * second)\<lparr>pc := AtPlan\<rparr>]\<rparr>)
          (Tick example_metrics) = Inr sys'
        \<and> length (tasks sys') = 2)"
proof -
  have "clock (example_system\<lparr>clock := 101 * second,
            tasks := [newRotation (101 * second)\<lparr>pc := AtPlan\<rparr>]\<rparr>)
     > NextRotation (state (sched example_system))"
    by (simp add: example_system_def example_scheduler_def second_def)
  with tick_starts_rotation [of "example_system\<lparr>clock := 101 * second,
            tasks := [newRotation (101 * second)\<lparr>pc := AtPlan\<rparr>]\<rparr>"
         example_metrics]
  show ?thesis by auto
qed

end
